theory Spec2Isabelle
  imports Main
begin

section \<open>Python text primitives\<close>

text \<open>
  Text is modelled as \<open>string\<close> (a list of 8-bit characters) and restricted to ASCII:
  a character is whitespace, a letter or a digit exactly when Python says so for the
  code point below 128; code points from 128 on are treated as ordinary symbols.
  The line separator is the constant \<open>linesep = "\n"\<close> of \<open>compile.py\<close>.
\<close>

definition linesep :: string where
  "linesep = [CHR 0x0A]"

definition isspace :: "char \<Rightarrow> bool" where
  \<comment> \<open>\<open>str.isspace\<close> and the class \<open>\s\<close>: tab, newline, VT, FF, CR, FS, GS, RS, US, space\<close>
  "isspace c = (c \<in> set [CHR 0x09, CHR 0x0A, CHR 0x0B, CHR 0x0C, CHR 0x0D,
                           CHR 0x1C, CHR 0x1D, CHR 0x1E, CHR 0x1F, CHR 0x20])"

definition string_whitespace :: string where
  \<comment> \<open>\<open>string.whitespace\<close>\<close>
  "string_whitespace = [CHR 0x20, CHR 0x09, CHR 0x0A, CHR 0x0D, CHR 0x0B, CHR 0x0C]"

definition in_range :: "nat \<Rightarrow> nat \<Rightarrow> char \<Rightarrow> bool" where
  "in_range lo hi c = (lo \<le> of_char c \<and> (of_char c :: nat) \<le> hi)"

definition isword :: "char \<Rightarrow> bool" where
  \<comment> \<open>the class \<open>\w\<close>: letters, digits and the underscore\<close>
  "isword c = (in_range 48 57 c \<or> in_range 65 90 c \<or> in_range 97 122 c \<or> c = CHR ''_'')"

definition lower_char :: "char \<Rightarrow> char" where
  "lower_char c = (if in_range 65 90 c then char_of (of_char c + (32::nat)) else c)"

definition upper_char :: "char \<Rightarrow> char" where
  "upper_char c = (if in_range 97 122 c then char_of (of_char c - (32::nat)) else c)"

definition lower :: "string \<Rightarrow> string" where
  "lower s = map lower_char s"

definition lstrip :: "string \<Rightarrow> string" where
  "lstrip s = dropWhile isspace s"

definition rstrip :: "string \<Rightarrow> string" where
  "rstrip s = rev (dropWhile isspace (rev s))"

definition strip :: "string \<Rightarrow> string" where
  "strip s = lstrip (rstrip s)"

definition lstrip_chars :: "string \<Rightarrow> string \<Rightarrow> string" where
  \<comment> \<open>\<open>s.lstrip(chars)\<close>\<close>
  "lstrip_chars chars s = dropWhile (\<lambda>c. c \<in> set chars) s"

definition strip_chars :: "string \<Rightarrow> string \<Rightarrow> string" where
  \<comment> \<open>\<open>s.strip(chars)\<close>\<close>
  "strip_chars chars s =
     dropWhile (\<lambda>c. c \<in> set chars) (rev (dropWhile (\<lambda>c. c \<in> set chars) (rev s)))"

definition startswith :: "string \<Rightarrow> string \<Rightarrow> bool" where
  \<comment> \<open>\<open>s.startswith(p)\<close>, written \<open>startswith p s\<close>\<close>
  "startswith p s = (take (length p) s = p)"

definition endswith :: "string \<Rightarrow> string \<Rightarrow> bool" where
  "endswith p s = (length p \<le> length s \<and> drop (length s - length p) s = p)"

fun find_from :: "nat \<Rightarrow> string \<Rightarrow> string \<Rightarrow> int" where
  "find_from i sub [] = (if sub = [] then int i else -1)"
| "find_from i sub (c # cs) =
     (if startswith sub (c # cs) then int i else find_from (Suc i) sub cs)"

definition py_find :: "string \<Rightarrow> string \<Rightarrow> int" where
  \<comment> \<open>\<open>s.find(sub)\<close>: the first index of \<open>sub\<close> in \<open>s\<close>, or \<open>-1\<close>\<close>
  "py_find sub s = find_from 0 sub s"

definition contains :: "string \<Rightarrow> string \<Rightarrow> bool" where
  \<comment> \<open>\<open>sub in s\<close>\<close>
  "contains sub s = (0 \<le> py_find sub s)"

fun replace_nonempty :: "nat \<Rightarrow> string \<Rightarrow> string \<Rightarrow> string \<Rightarrow> string" where
  \<comment> \<open>the first argument counts the characters of a found occurrence still to skip\<close>
  "replace_nonempty k old new [] = []"
| "replace_nonempty (Suc k) old new (c # cs) = replace_nonempty k old new cs"
| "replace_nonempty 0 old new (c # cs) =
     (if startswith old (c # cs) then new @ replace_nonempty (length old - 1) old new cs
      else c # replace_nonempty 0 old new cs)"

definition py_replace :: "string \<Rightarrow> string \<Rightarrow> string \<Rightarrow> string" where
  \<comment> \<open>\<open>s.replace(old, new)\<close>; an empty \<open>old\<close> matches before every character and at the end\<close>
  "py_replace old new s =
     (if old = [] then concat (map (\<lambda>c. new @ [c]) s) @ new
      else replace_nonempty 0 old new s)"

fun expandtabs_from :: "int \<Rightarrow> nat \<Rightarrow> string \<Rightarrow> string" where
  "expandtabs_from tabsize col [] = []"
| "expandtabs_from tabsize col (c # cs) =
     (if c = CHR 0x09 then
        (if 0 < tabsize then
           replicate (nat tabsize - col mod nat tabsize) CHR '' '' @
             expandtabs_from tabsize (col + (nat tabsize - col mod nat tabsize)) cs
         else expandtabs_from tabsize col cs)
      else c # expandtabs_from tabsize
                 (if c = CHR 0x0A \<or> c = CHR 0x0D then 0 else Suc col) cs)"

definition expandtabs :: "int \<Rightarrow> string \<Rightarrow> string" where
  \<comment> \<open>\<open>s.expandtabs(tabsize)\<close>\<close>
  "expandtabs tabsize s = expandtabs_from tabsize 0 s"

definition indent_of :: "int \<Rightarrow> string \<Rightarrow> nat" where
  \<comment> \<open>\<open>len(line.expandtabs(t)) - len(line.expandtabs(t).lstrip())\<close>\<close>
  "indent_of tabsize line =
     length (expandtabs tabsize line) - length (lstrip (expandtabs tabsize line))"

section \<open>Python lists\<close>

datatype error = IndexError | AttributeError | UnboundLocalError | TypeError

definition norm_index :: "'a list \<Rightarrow> int \<Rightarrow> nat option" where
  \<comment> \<open>an index as Python reads it: a negative one counts from the end\<close>
  "norm_index xs i =
     (if 0 \<le> i \<and> i < int (length xs) then Some (nat i)
      else if i < 0 \<and> - int (length xs) \<le> i then Some (nat (int (length xs) + i))
      else None)"

definition py_get :: "'a list \<Rightarrow> int \<Rightarrow> error + 'a" where
  \<comment> \<open>\<open>xs[i]\<close>\<close>
  "py_get xs i = (case norm_index xs i of None \<Rightarrow> Inl IndexError | Some k \<Rightarrow> Inr (xs ! k))"

definition py_set :: "'a list \<Rightarrow> int \<Rightarrow> 'a \<Rightarrow> error + 'a list" where
  \<comment> \<open>\<open>xs[i] = v\<close>\<close>
  "py_set xs i v = (case norm_index xs i of None \<Rightarrow> Inl IndexError | Some k \<Rightarrow> Inr (xs[k := v]))"

definition slice_bound :: "nat \<Rightarrow> int \<Rightarrow> nat" where
  \<comment> \<open>a slice bound as Python clamps it into \<open>0..len\<close>\<close>
  "slice_bound n i =
     (if i < 0 then nat (max 0 (int n + i)) else min n (nat i))"

definition py_slice :: "'a list \<Rightarrow> int \<Rightarrow> int \<Rightarrow> 'a list" where
  \<comment> \<open>\<open>xs[i:j]\<close>\<close>
  "py_slice xs i j =
     take (slice_bound (length xs) j - slice_bound (length xs) i)
          (drop (slice_bound (length xs) i) xs)"

definition py_slice_assign :: "'a list \<Rightarrow> int \<Rightarrow> int \<Rightarrow> 'a list \<Rightarrow> 'a list" where
  \<comment> \<open>\<open>xs[i:j] = ys\<close>; an upper bound below the lower one is read as the lower one\<close>
  "py_slice_assign xs i j ys =
     take (slice_bound (length xs) i) xs @ ys @
     drop (max (slice_bound (length xs) i) (slice_bound (length xs) j)) xs"

section \<open>Python regular expressions\<close>

text \<open>
  The patterns of \<open>compile.py\<close> are written as terms of \<open>regex\<close>, and matched the way
  Python's backtracking engine matches them: alternatives left to right, repetitions
  greedy, the first successful path wins. A repetition starts a further iteration only
  when the minimum count is not reached yet or the previous iteration started
  elsewhere, which is the engine's guard against empty iterations.
\<close>

datatype cclass =
    CChar char
  | CSpace
  | CNonSpace
  | CWord
  | CAny
  | CRange char char
  | COneOf "char list"
  | CUnion cclass cclass

fun cclass_match :: "bool \<Rightarrow> cclass \<Rightarrow> char \<Rightarrow> bool" where
  "cclass_match ic (CChar d) c = (if ic then lower_char c = lower_char d else c = d)"
| "cclass_match ic CSpace c = isspace c"
| "cclass_match ic CNonSpace c = (\<not> isspace c)"
| "cclass_match ic CWord c = isword c"
| "cclass_match ic CAny c = (c \<noteq> CHR 0x0A)"
| "cclass_match ic (CRange a b) c =
     (in_range (of_char a) (of_char b) c \<or>
      (ic \<and> (in_range (of_char a) (of_char b) (lower_char c) \<or>
              in_range (of_char a) (of_char b) (upper_char c))))"
| "cclass_match ic (COneOf ds) c =
     (if ic then lower_char c \<in> set (map lower_char ds) else c \<in> set ds)"
| "cclass_match ic (CUnion a b) c = (cclass_match ic a c \<or> cclass_match ic b c)"

datatype regex =
    Atom cclass
  | Eps
  | Seq regex regex
  | Alt regex regex
  | Rep nat "nat option" regex
  | Group nat regex
  | Backref nat
  | Bol
  | Eol

record re_flags =
  ignorecase :: bool
  multiline :: bool

record mstate =
  prev :: "char option"
  rest :: string
  groups :: "nat \<rightharpoonup> string"

type_synonym cont = "mstate \<Rightarrow> mstate option"

primrec rep :: "nat \<Rightarrow> (cont \<Rightarrow> cont) \<Rightarrow> nat \<Rightarrow> nat \<Rightarrow> nat option \<Rightarrow> nat option \<Rightarrow> cont \<Rightarrow> cont" where
  "rep 0 f cnt lo hi last_start k st = (if lo \<le> cnt then k st else None)"
| "rep (Suc fuel) f cnt lo hi last_start k st =
     (if (case hi of None \<Rightarrow> True | Some h \<Rightarrow> cnt < h) \<and>
         (cnt < lo \<or> last_start \<noteq> Some (length (rest st)))
      then (case f (rep fuel f (Suc cnt) lo hi (Some (length (rest st))) k) st of
              Some r \<Rightarrow> Some r
            | None \<Rightarrow> (if lo \<le> cnt then k st else None))
      else (if lo \<le> cnt then k st else None))"

primrec m :: "re_flags \<Rightarrow> regex \<Rightarrow> cont \<Rightarrow> cont" where
  "m fl (Atom c) k st =
     (case rest st of
        [] \<Rightarrow> None
      | x # xs \<Rightarrow> if cclass_match (ignorecase fl) c x
                  then k (st\<lparr>prev := Some x, rest := xs\<rparr>) else None)"
| "m fl Eps k st = k st"
| "m fl (Seq a b) k st = m fl a (m fl b k) st"
| "m fl (Alt a b) k st =
     (case m fl a k st of Some r \<Rightarrow> Some r | None \<Rightarrow> m fl b k st)"
| "m fl (Rep lo hi a) k st =
     rep (2 * length (rest st) + lo + 2) (m fl a) 0 lo hi None k st"
| "m fl (Group i a) k st =
     m fl a (\<lambda>st'. k (st'\<lparr>groups := (groups st')(i \<mapsto>
                take (length (rest st) - length (rest st')) (rest st))\<rparr>)) st"
| "m fl (Backref i) k st =
     (case groups st i of
        None \<Rightarrow> None
      | Some s \<Rightarrow>
          if (if ignorecase fl then lower (take (length s) (rest st)) = lower s
              else take (length s) (rest st) = s)
          then k (st\<lparr>prev := (if s = [] then prev st else Some (last s)),
                     rest := drop (length s) (rest st)\<rparr>)
          else None)"
| "m fl Bol k st =
     (if prev st = None \<or> (multiline fl \<and> prev st = Some (CHR 0x0A)) then k st else None)"
| "m fl Eol k st =
     (if rest st = [] \<or> rest st = [CHR 0x0A] \<or>
         (multiline fl \<and> take 1 (rest st) = [CHR 0x0A])
      then k st else None)"

text \<open>A match object: the text matched (\<open>group(0)\<close>), the groups and the text after it.\<close>

record match =
  group0 :: string
  grp :: "nat \<rightharpoonup> string"
  tail_text :: string

definition match_at :: "re_flags \<Rightarrow> regex \<Rightarrow> char option \<Rightarrow> string \<Rightarrow> match option" where
  "match_at fl r p s =
     (case m fl r Some \<lparr>prev = p, rest = s, groups = Map.empty\<rparr> of
        None \<Rightarrow> None
      | Some st \<Rightarrow> Some \<lparr>group0 = take (length s - length (rest st)) s,
                         grp = groups st, tail_text = rest st\<rparr>)"

definition re_match :: "re_flags \<Rightarrow> regex \<Rightarrow> string \<Rightarrow> match option" where
  \<comment> \<open>\<open>pattern.match(s)\<close>: a match starting at index 0\<close>
  "re_match fl r s = match_at fl r None s"

fun search_from :: "re_flags \<Rightarrow> regex \<Rightarrow> char option \<Rightarrow> string \<Rightarrow> match option" where
  "search_from fl r p [] = match_at fl r p []"
| "search_from fl r p (c # cs) =
     (case match_at fl r p (c # cs) of
        Some mo \<Rightarrow> Some mo
      | None \<Rightarrow> search_from fl r (Some c) cs)"

definition re_search :: "re_flags \<Rightarrow> regex \<Rightarrow> string \<Rightarrow> match option" where
  \<comment> \<open>\<open>pattern.search(s)\<close>: the leftmost match\<close>
  "re_search fl r s = search_from fl r None s"

definition group :: "match \<Rightarrow> nat \<Rightarrow> string" where
  \<comment> \<open>\<open>match.group(i)\<close> for \<open>i > 0\<close>; the program reads only groups that every match sets\<close>
  "group mo i = (case grp mo i of None \<Rightarrow> [] | Some s \<Rightarrow> s)"

fun sub_from :: "re_flags \<Rightarrow> regex \<Rightarrow> string \<Rightarrow> char option \<Rightarrow> string \<Rightarrow> string" where
  "sub_from fl r repl p [] = (case match_at fl r p [] of None \<Rightarrow> [] | Some mo \<Rightarrow> repl)"
| "sub_from fl r repl p (c # cs) =
     (case match_at fl r p (c # cs) of
        None \<Rightarrow> c # sub_from fl r repl (Some c) cs
      | Some mo \<Rightarrow>
          if length (tail_text mo) < length (c # cs)
          then repl @ sub_from fl r repl (Some (last (group0 mo))) (tail_text mo)
          else repl @ c # sub_from fl r repl (Some c) cs)"

definition re_sub :: "re_flags \<Rightarrow> regex \<Rightarrow> string \<Rightarrow> string \<Rightarrow> string" where
  \<comment> \<open>\<open>pattern.sub(repl, s)\<close> for a replacement text without escapes: every leftmost
      non-overlapping match is replaced\<close>
  "re_sub fl r repl s = sub_from fl r repl None s"

fun findall_from :: "re_flags \<Rightarrow> regex \<Rightarrow> char option \<Rightarrow> string \<Rightarrow> string list" where
  "findall_from fl r p [] = (case match_at fl r p [] of None \<Rightarrow> [] | Some mo \<Rightarrow> [group mo 1])"
| "findall_from fl r p (c # cs) =
     (case match_at fl r p (c # cs) of
        None \<Rightarrow> findall_from fl r (Some c) cs
      | Some mo \<Rightarrow>
          if length (tail_text mo) < length (c # cs)
          then group mo 1 # findall_from fl r (Some (last (group0 mo))) (tail_text mo)
          else group mo 1 # findall_from fl r (Some c) cs)"

definition re_findall :: "re_flags \<Rightarrow> regex \<Rightarrow> string \<Rightarrow> string list" where
  \<comment> \<open>\<open>pattern.findall(s)\<close> for a pattern with one group: the group of every match\<close>
  "re_findall fl r s = findall_from fl r None s"

subsection \<open>Pattern notation\<close>

definition lit :: "string \<Rightarrow> regex" where
  "lit s = foldr (\<lambda>c r. Seq (Atom (CChar c)) r) s Eps"

definition seqs :: "regex list \<Rightarrow> regex" where
  "seqs rs = foldr Seq rs Eps"

abbreviation star :: "regex \<Rightarrow> regex" where
  "star r \<equiv> Rep 0 None r"

abbreviation plus :: "regex \<Rightarrow> regex" where
  "plus r \<equiv> Rep 1 None r"

abbreviation opt :: "regex \<Rightarrow> regex" where
  "opt r \<equiv> Rep 0 (Some 1) r"

abbreviation ws :: regex where
  "ws \<equiv> Atom CSpace"

abbreviation quote_char :: cclass where
  \<comment> \<open>the class \<open>['\"]\<close>\<close>
  "quote_char \<equiv> COneOf [CHR 0x27, CHR 0x22]"

abbreviation word_or_dot :: cclass where
  \<comment> \<open>the class \<open>[\w\.]\<close>\<close>
  "word_or_dot \<equiv> CUnion CWord (CChar CHR ''.'')"

definition plain :: re_flags where
  "plain = \<lparr>ignorecase = False, multiline = False\<rparr>"

definition IGNORECASE :: re_flags where
  "IGNORECASE = \<lparr>ignorecase = True, multiline = False\<rparr>"

definition MULTILINE :: re_flags where
  "MULTILINE = \<lparr>ignorecase = False, multiline = True\<rparr>"

section \<open>The pattern table of \<open>compile.py\<close> (class \<open>RE\<close>)\<close>

definition indentRE :: regex where
  \<comment> \<open>\<open>^(\s*)\S\<close>\<close>
  "indentRE = seqs [Bol, Group 1 (star ws), Atom CNonSpace]"

definition newlineRE :: regex where
  \<comment> \<open>\<open>^#\<close>, MULTILINE\<close>
  "newlineRE = seqs [Bol, lit ''#'']"

definition blanklineRE :: regex where
  \<comment> \<open>\<open>^\s*$\<close>\<close>
  "blanklineRE = seqs [Bol, star ws, Eol]"

definition docstrMarkerRE :: regex where
  \<comment> \<open>\<open>\s*([uUbB]*[rR]?(['\"]{3}))\<close>\<close>
  "docstrMarkerRE =
     seqs [star ws,
           Group 1 (seqs [star (Atom (COneOf ''uUbB'')), opt (Atom (COneOf ''rR'')),
                          Group 2 (Rep 3 (Some 3) (Atom quote_char))])]"

definition docstrOneLineRE :: regex where
  \<comment> \<open>\<open>\s*[uUbB]*[rR]?(['\"]{3})(.+)\1\<close>\<close>
  "docstrOneLineRE =
     seqs [star ws, star (Atom (COneOf ''uUbB'')), opt (Atom (COneOf ''rR'')),
           Group 1 (Rep 3 (Some 3) (Atom quote_char)), Group 2 (plus (Atom CAny)), Backref 1]"

definition implementsRE :: regex where
  \<comment> \<open>\<open>^(\s*)(?:zope\.)?(?:interface\.)?(?:module|class|directly)?(?:Provides|Implements)\(\s*(.+)\s*\)\<close>,
      IGNORECASE\<close>
  "implementsRE =
     seqs [Bol, Group 1 (star ws), opt (lit ''zope.''), opt (lit ''interface.''),
           opt (Alt (lit ''module'') (Alt (lit ''class'') (lit ''directly''))),
           Alt (lit ''Provides'') (lit ''Implements''), lit ''('', star ws,
           Group 2 (plus (Atom CAny)), star ws, lit '')'']"

definition interfaceRE :: regex where
  \<comment> \<open>\<open>^\s*class\s+(\S+)\s*\(\s*(?:zope\.)?(?:interface\.)?Interface\s*\)\s*:\<close>, IGNORECASE\<close>
  "interfaceRE =
     seqs [Bol, star ws, lit ''class'', plus ws, Group 1 (plus (Atom CNonSpace)), star ws,
           lit ''('', star ws, opt (lit ''zope.''), opt (lit ''interface.''),
           lit ''Interface'', star ws, lit '')'', star ws, lit '':'']"

definition attributeRE :: regex where
  \<comment> \<open>\<open>^(\s*)(\S+)\s*=\s*(?:zope\.)?(?:interface\.)?Attribute\s*\(['\"]{1,3}(.*)['\"]{1,3}\)\<close>,
      IGNORECASE\<close>
  "attributeRE =
     seqs [Bol, Group 1 (star ws), Group 2 (plus (Atom CNonSpace)), star ws, lit ''='',
           star ws, opt (lit ''zope.''), opt (lit ''interface.''), lit ''Attribute'',
           star ws, lit ''('', Rep 1 (Some 3) (Atom quote_char), Group 3 (star (Atom CAny)),
           Rep 1 (Some 3) (Atom quote_char), lit '')'']"

definition singleLineRE :: "string \<Rightarrow> regex" where
  \<comment> \<open>\<open>^(\s*<label>:\s*)(.*)$\<close>, IGNORECASE; the label \<open>Authors?\<close> has its own entry\<close>
  "singleLineRE label =
     seqs [Bol, Group 1 (seqs [star ws, lit label, lit '':'', star ws]),
           Group 2 (star (Atom CAny)), Eol]"

definition authorRE :: regex where
  \<comment> \<open>\<open>^(\s*Authors?:\s*)(.*)$\<close>, IGNORECASE\<close>
  "authorRE =
     seqs [Bol, Group 1 (seqs [star ws, lit ''Author'', opt (lit ''s''), lit '':'', star ws]),
           Group 2 (star (Atom CAny)), Eol]"

definition singleLineREs :: "(string \<times> regex) list" where
  \<comment> \<open>the dictionary \<open>_singleLineREs\<close>, in its insertion order\<close>
  "singleLineREs =
     [('' @author: '', authorRE),
      ('' @copyright '', singleLineRE ''Copyright''),
      ('' @date '', singleLineRE ''Date''),
      ('' @file '', singleLineRE ''File''),
      ('' @version: '', singleLineRE ''Version''),
      ('' @note '', singleLineRE ''Note''),
      ('' @warning '', singleLineRE ''Warning'')]"

definition argsStartRE :: regex where
  \<comment> \<open>\<open>^(\s*(?:(?:Keyword\s+)?(?:A|Kwa)rg(?:ument)?|Attribute)s?\s*:\s*)$\<close>, IGNORECASE\<close>
  "argsStartRE =
     seqs [Bol,
           Group 1 (seqs [star ws,
                          Alt (seqs [opt (Seq (lit ''Keyword'') (plus ws)),
                                     Alt (lit ''A'') (lit ''Kwa''), lit ''rg'',
                                     opt (lit ''ument'')])
                              (lit ''Attribute''),
                          opt (lit ''s''), star ws, lit '':'', star ws]),
           Eol]"

definition argsRE :: regex where
  \<comment> \<open>\<open>^\s*(?P<name>\w+)\s*(?P<type>\(?\S*\)?)?\s*(?:-|:)+\s+(?P<desc>.+)$\<close>;
      the named groups are groups 1, 2 and 3\<close>
  "argsRE =
     seqs [Bol, star ws, Group 1 (plus (Atom CWord)), star ws,
           opt (Group 2 (seqs [opt (lit ''(''), star (Atom CNonSpace), opt (lit '')'')])),
           star ws, plus (Alt (lit ''-'') (lit '':'')), plus ws,
           Group 3 (plus (Atom CAny)), Eol]"

definition returnsStartRE :: regex where
  \<comment> \<open>\<open>^\s*(?:Return|Yield)s:\s*$\<close>, IGNORECASE\<close>
  "returnsStartRE =
     seqs [Bol, star ws, Alt (lit ''Return'') (lit ''Yield''), lit ''s:'', star ws, Eol]"

definition raisesStartRE :: regex where
  \<comment> \<open>\<open>^\s*(Raises|Exceptions|See Also):\s*$\<close>, IGNORECASE\<close>
  "raisesStartRE =
     seqs [Bol, star ws,
           Group 1 (Alt (lit ''Raises'') (Alt (lit ''Exceptions'') (lit ''See Also''))),
           lit '':'', star ws, Eol]"

definition listRE :: regex where
  \<comment> \<open>\<open>^\s*(([\w\.]+),\s*)+(&|and)?\s*([\w\.]+)$\<close>\<close>
  "listRE =
     seqs [Bol, star ws,
           plus (Group 1 (seqs [Group 2 (plus (Atom word_or_dot)), lit '','', star ws])),
           opt (Group 3 (Alt (lit ''&'') (lit ''and''))), star ws,
           Group 4 (plus (Atom word_or_dot)), Eol]"

definition singleListItemRE :: regex where
  \<comment> \<open>\<open>^\s*([\w\.]+)\s*$\<close>\<close>
  "singleListItemRE = seqs [Bol, star ws, Group 1 (plus (Atom word_or_dot)), star ws, Eol]"

definition listItemRE :: regex where
  \<comment> \<open>\<open>([\w\.]+),?\s*\<close>\<close>
  "listItemRE = seqs [Group 1 (plus (Atom word_or_dot)), opt (lit '',''), star ws]"

definition examplesStartRE :: regex where
  \<comment> \<open>\<open>^\s*(?:Example|Doctest)s?:\s*$\<close>, IGNORECASE\<close>
  "examplesStartRE =
     seqs [Bol, star ws, Alt (lit ''Example'') (lit ''Doctest''), opt (lit ''s''), lit '':'',
           star ws, Eol]"

definition sectionStartRE :: regex where
  \<comment> \<open>\<open>^\s*(([A-Z]\w* ?){1,2}):\s*$\<close>\<close>
  "sectionStartRE =
     seqs [Bol, star ws,
           Group 1 (Rep 1 (Some 2)
                      (Group 2 (seqs [Atom (CRange CHR ''A'' CHR ''Z''), star (Atom CWord),
                                      opt (lit '' '')]))),
           lit '':'', star ws, Eol]"

definition errorLineRE :: regex where
  \<comment> \<open>\<open>^\s*((?:\S+Error|Traceback.*):?\s*(.*)|@?[\w.]+)\s*$\<close>, IGNORECASE\<close>
  "errorLineRE =
     seqs [Bol, star ws,
           Group 1 (Alt (seqs [Alt (Seq (plus (Atom CNonSpace)) (lit ''Error''))
                                   (Seq (lit ''Traceback'') (star (Atom CAny))),
                               opt (lit '':''), star ws, Group 2 (star (Atom CAny))])
                        (Seq (opt (lit ''@'')) (plus (Atom word_or_dot)))),
           star ws, Eol]"

section \<open>The code/prose detector (\<open>AstWalker._checkIfCode\<close>)\<close>

text \<open>
  \<open>codeop.compile_command\<close> belongs to the Python library, so the model takes it as a
  parameter: for a text it returns a code object, returns \<open>None\<close> (the text is
  incomplete) or raises.
\<close>

datatype compile_result =
    CodeObject | NoneIncomplete | RaisesSyntaxError | RaisesRuntimeError | RaisesOther

text \<open>
  The detector is a coroutine. Its state between two \<open>send\<close>s is the \<open>yield\<close> it is
  suspended at and its local variables; \<open>lines\<close> is rebound at every \<open>yield\<close>, so it
  is an argument of \<open>send\<close> and not part of the state.
\<close>

datatype suspended = AtTop | AtAmbiguous | AtIncomplete | AtOtherError

record checker =
  suspended_at :: suspended
  c_inCodeBlock :: bool
  testLine :: string
  testLineNum :: int
  currentLineNum :: int

definition checkIfCode :: "bool \<Rightarrow> checker" where
  \<comment> \<open>\<open>self._checkIfCode(inCodeBlock)\<close>, advanced to its first \<open>yield\<close>\<close>
  "checkIfCode inCodeBlock =
     \<lparr>suspended_at = AtTop, c_inCodeBlock = inCodeBlock, testLine = [],
      testLineNum = 1, currentLineNum = 0\<rparr>"

text \<open>The value of \<open>lineOfCode\<close> after one pass of the inner loop, or the \<open>yield\<close> reached.\<close>

datatype verdict = LineOfCode bool | NeedLine suspended

definition classify :: "(string \<Rightarrow> compile_result) \<Rightarrow> checker \<Rightarrow> string list \<Rightarrow> verdict" where
  "classify compile_command ck ls =
     (if testLine ck = [] \<or> testLine ck = ''...'' \<or>
         re_match IGNORECASE errorLineRE (testLine ck) \<noteq> None
      then NeedLine AtAmbiguous
      else if startswith ''>>> '' (testLine ck) then LineOfCode True
      else (case compile_command (testLine ck) of
              RaisesSyntaxError \<Rightarrow> LineOfCode False
            | RaisesRuntimeError \<Rightarrow> LineOfCode False
            | RaisesOther \<Rightarrow> NeedLine AtOtherError
            | NoneIncomplete \<Rightarrow> NeedLine AtIncomplete
            | CodeObject \<Rightarrow>
                (case py_get ls (currentLineNum ck) of
                   Inl e \<Rightarrow> NeedLine AtOtherError
                 | Inr l \<Rightarrow> if startswith ''#'' (strip l) then LineOfCode True
                           else NeedLine AtIncomplete)))"

definition mark :: "checker \<Rightarrow> bool \<Rightarrow> string list \<Rightarrow> error + checker \<times> string list" where
  \<comment> \<open>the statements after the inner loop, then the \<open>yield\<close> at the top\<close>
  "mark ck lineOfCode ls =
     (if \<not> c_inCodeBlock ck \<and> lineOfCode then
        (case py_get ls (currentLineNum ck) of
           Inl e \<Rightarrow> Inl e
         | Inr l \<Rightarrow>
             (case py_set ls (currentLineNum ck) (l @ linesep @ ''# @code'' @ linesep) of
                Inl e \<Rightarrow> Inl e
              | Inr ls' \<Rightarrow> Inr (ck\<lparr>suspended_at := AtTop, c_inCodeBlock := True\<rparr>, ls')))
      else if c_inCodeBlock ck \<and> \<not> lineOfCode then
        (case py_get ls (currentLineNum ck) of
           Inl e \<Rightarrow> Inl e
         | Inr l \<Rightarrow>
             (case py_set ls (currentLineNum ck) (l @ linesep @ ''# @endcode'' @ linesep) of
                Inl e \<Rightarrow> Inl e
              | Inr ls' \<Rightarrow> Inr (ck\<lparr>suspended_at := AtTop, c_inCodeBlock := False\<rparr>, ls')))
      else Inr (ck\<lparr>suspended_at := AtTop\<rparr>, ls))"

definition checker_resume :: "checker \<Rightarrow> string \<Rightarrow> int \<Rightarrow> checker \<times> bool option" where
  \<comment> \<open>the statements from the \<open>yield\<close> that received \<open>(line, lines, lineNum)\<close> to the next
      test of the inner loop; the second component is \<open>lineOfCode\<close> when it is set there\<close>
  "checker_resume ck line lineNum =
     (case suspended_at ck of
        AtTop \<Rightarrow> (ck\<lparr>testLineNum := 1, currentLineNum := 0, testLine := strip line\<rparr>, None)
      | AtAmbiguous \<Rightarrow>
          (ck\<lparr>testLine := strip line, currentLineNum := lineNum - testLineNum ck\<rparr>, None)
      | AtOtherError \<Rightarrow>
          (ck\<lparr>testLine := strip line, currentLineNum := lineNum - testLineNum ck\<rparr>, None)
      | AtIncomplete \<Rightarrow>
          if startswith ''>>> '' (strip line)
          then (ck\<lparr>currentLineNum := lineNum - testLineNum ck\<rparr>, Some True)
          else (ck\<lparr>testLine := strip (testLine ck @ linesep @ strip line),
                   testLineNum := testLineNum ck + 1,
                   currentLineNum := lineNum - (testLineNum ck + 1)\<rparr>, None))"

definition checker_send ::
  "(string \<Rightarrow> compile_result) \<Rightarrow> checker \<Rightarrow> string \<Rightarrow> string list \<Rightarrow> int \<Rightarrow>
   error + checker \<times> string list" where
  \<comment> \<open>\<open>checker.send((line, lines, lineNum))\<close>: the new state and the list \<open>lines\<close>,
      which the detector changes in place\<close>
  "checker_send compile_command ck line ls lineNum =
     (case checker_resume ck line lineNum of
        (ck', Some b) \<Rightarrow> mark ck' b ls
      | (ck', None) \<Rightarrow>
          (case classify compile_command ck' ls of
             NeedLine y \<Rightarrow> Inr (ck'\<lparr>suspended_at := y\<rparr>, ls)
           | LineOfCode b \<Rightarrow>
               mark (ck'\<lparr>currentLineNum := lineNum - testLineNum ck'\<rparr>) b ls))"

section \<open>The docstring rewriter (\<open>AstWalker.__alterDocstring\<close>) and the block writer\<close>

record options =
  autobrief :: bool
  autocode :: bool
  topLevelNamespace :: string \<comment> \<open>empty when the option is not given\<close>
  tablength :: int
  fullPathNamespace :: string

definition and_then :: "error + 'a \<Rightarrow> ('a \<Rightarrow> error + 'b) \<Rightarrow> error + 'b" where
  \<comment> \<open>an exception raised by the first statement leaves the second one unexecuted\<close>
  "and_then r f = (case r of Inl e \<Rightarrow> Inl e | Inr x \<Rightarrow> f x)"

definition stripOutAnds :: "string \<Rightarrow> string" where
  "stripOutAnds inStr = py_replace '' & '' '' '' (py_replace '' and '' '' '' inStr)"

definition endCodeIfNeeded :: "string \<Rightarrow> bool \<Rightarrow> string \<times> bool" where
  "endCodeIfNeeded line inCodeBlock =
     (if inCodeBlock then (''# @endcode'' @ linesep @ rstrip line, False)
      else (line, inCodeBlock))"

definition pad :: "string list \<Rightarrow> int \<Rightarrow> string list" where
  \<comment> \<open>\<open>while len(lines) < newDocstringLen: lines.append('')\<close>\<close>
  "pad ls newDocstringLen = ls @ replicate (nat (newDocstringLen - int (length ls))) []"

definition writeDocstring :: "string list \<Rightarrow> int \<Rightarrow> int \<Rightarrow> string list \<Rightarrow> string list" where
  \<comment> \<open>one \<open>send((firstLineNum, lastLineNum, lines))\<close> to \<open>__writeDocstring\<close>: the new
      value of \<open>self.docLines\<close>\<close>
  "writeDocstring docLines firstLineNum lastLineNum ls =
     py_slice_assign docLines firstLineNum (lastLineNum + 1)
       (pad ls (lastLineNum - firstLineNum + 1))"

text \<open>The local variables of the rewriter coroutine, and \<open>self.docLines\<close>, which its writer changes.\<close>

record rewriter =
  lines :: "string list"
  timeToSend :: bool
  inCodeBlock :: bool
  inSection :: bool
  prefix :: string
  firstLineNum :: int
  sectionHeadingIndent :: nat
  codeChecker :: checker
  proseChecker :: checker
  docLines :: "string list"

definition alterDocstring :: "string list \<Rightarrow> rewriter" where
  \<comment> \<open>\<open>self.__alterDocstring(tail, self.__writeDocstring())\<close>, advanced to its first \<open>yield\<close>\<close>
  "alterDocstring dls =
     \<lparr>lines = [], timeToSend = False, inCodeBlock = False, inSection = False,
      prefix = [], firstLineNum = -1, sectionHeadingIndent = 0,
      codeChecker = checkIfCode False, proseChecker = checkIfCode True, docLines = dls\<rparr>"

definition end_code_on_last :: "rewriter \<Rightarrow> error + rewriter" where
  \<comment> \<open>\<open>lines[-1], inCodeBlock = self._endCodeIfNeeded(lines[-1], inCodeBlock)\<close>\<close>
  "end_code_on_last st =
     and_then (py_get (lines st) (-1)) (\<lambda>l.
     and_then (py_set (lines st) (-1) (fst (endCodeIfNeeded l (inCodeBlock st)))) (\<lambda>ls.
       Inr (st\<lparr>lines := ls, inCodeBlock := snd (endCodeIfNeeded l (inCodeBlock st))\<rparr>)))"

definition single_line_tag ::
  "int \<Rightarrow> string \<times> regex \<Rightarrow> rewriter \<times> string \<Rightarrow> error + rewriter \<times> string" where
  \<comment> \<open>the body of \<open>for doxyTag, tagRE in RE._singleLineREs.items()\<close>\<close>
  "single_line_tag lineNum tag x =
     (case re_search IGNORECASE (snd tag) (snd x) of
        None \<Rightarrow> Inr x
      | Some mo \<Rightarrow>
          and_then (end_code_on_last (fst x)) (\<lambda>st.
            Inr (st\<lparr>docLines := writeDocstring (docLines st) (firstLineNum st) (lineNum - 1)
                                   (lines st),
                    lines := [], firstLineNum := lineNum, timeToSend := True\<rparr>,
                 py_replace (group mo 1) (fst tag) (snd x))))"

fun single_line_tags ::
  "int \<Rightarrow> (string \<times> regex) list \<Rightarrow> rewriter \<times> string \<Rightarrow> error + rewriter \<times> string" where
  "single_line_tags lineNum [] x = Inr x"
| "single_line_tags lineNum (tag # tags) x =
     and_then (single_line_tag lineNum tag x) (single_line_tags lineNum tags)"

definition section_continuation :: "options \<Rightarrow> rewriter \<Rightarrow> string \<Rightarrow> error + rewriter" where
  \<comment> \<open>\<open>if inSection: ...\<close>\<close>
  "section_continuation opts st line =
     (if inSection st \<and> re_match plain blanklineRE line = None then
        (if indent_of (tablength opts) line \<le> sectionHeadingIndent st
         then Inr (st\<lparr>inSection := False\<rparr>)
         else and_then (py_get (lines st) (-1)) (\<lambda>l.
                if l = ''#''
                then and_then (py_set (lines st) (-1) ''# @par'') (\<lambda>ls. Inr (st\<lparr>lines := ls\<rparr>))
                else Inr st))
      else Inr st)"

text \<open>
  The chain of \<open>if ... else\<close> that classifies a line either ends the loop body with
  \<open>continue\<close> or falls through to the statements that append the line.
\<close>

datatype flow = Continue rewriter | Proceed rewriter string

definition prefixed_line ::
  "options \<Rightarrow> (string \<Rightarrow> compile_result) \<Rightarrow> int \<Rightarrow> rewriter \<Rightarrow> string \<Rightarrow> error + flow" where
  \<comment> \<open>the branch \<open>elif prefix:\<close>\<close>
  "prefixed_line opts compile_command lineNum st line =
     (case (if inCodeBlock st then None else re_match plain singleListItemRE line) of
        Some mo \<Rightarrow> Inr (Proceed st ('' '' @ prefix st @ [CHR 0x09] @ group0 mo))
      | None \<Rightarrow>
          if autocode opts \<and> inCodeBlock st then
            and_then (checker_send compile_command (proseChecker st) line (lines st)
                        (lineNum - firstLineNum st))
              (\<lambda>r. Inr (Proceed (st\<lparr>proseChecker := fst r, lines := snd r\<rparr>) line))
          else if autocode opts then
            and_then (checker_send compile_command (codeChecker st) line (lines st)
                        (lineNum - firstLineNum st))
              (\<lambda>r. Inr (Proceed (st\<lparr>codeChecker := fst r, lines := snd r\<rparr>) line))
          else Inr (Proceed st line))"

definition section_heading ::
  "options \<Rightarrow> (string \<Rightarrow> compile_result) \<Rightarrow> int \<Rightarrow> rewriter \<Rightarrow> string \<Rightarrow> error + flow" where
  "section_heading opts compile_command lineNum st line =
     (case re_match plain sectionStartRE line of
        Some mo \<Rightarrow>
          and_then (py_get (lines st) (-1)) (\<lambda>l.
          and_then (if l = ''# @par'' then py_set (lines st) (-1) ''#'' else Inr (lines st)) (\<lambda>ls.
          and_then (end_code_on_last
                      (st\<lparr>prefix := [], inSection := True,
                          sectionHeadingIndent := indent_of (tablength opts) line,
                          lines := ls\<rparr>)) (\<lambda>st'.
            Inr (Continue (st'\<lparr>lines := lines st' @
                   [''#'' @ py_replace (group0 mo) ('' @par '' @ group mo 1) line]\<rparr>)))))
      | None \<Rightarrow>
          if prefix st \<noteq> [] then prefixed_line opts compile_command lineNum st line
          else Inr (Proceed st line))"

definition examples_heading ::
  "options \<Rightarrow> (string \<Rightarrow> compile_result) \<Rightarrow> int \<Rightarrow> rewriter \<Rightarrow> string \<Rightarrow> error + flow" where
  "examples_heading opts compile_command lineNum st line =
     (case re_match IGNORECASE examplesStartRE line of
        Some mo \<Rightarrow>
          and_then (py_get (lines st) (-1)) (\<lambda>l.
            if strip l = ''#'' \<and> autocode opts
            then Inr (Proceed (st\<lparr>inCodeBlock := True\<rparr>)
                        (py_replace (group0 mo)
                           ('' @b Examples'' @ linesep @ ''# @code'') line))
            else section_heading opts compile_command lineNum st line)
      | None \<Rightarrow> section_heading opts compile_command lineNum st line)"

definition list_line ::
  "options \<Rightarrow> (string \<Rightarrow> compile_result) \<Rightarrow> int \<Rightarrow> rewriter \<Rightarrow> string \<Rightarrow> error + flow" where
  "list_line opts compile_command lineNum st line =
     (case (if inCodeBlock st then None else re_match plain listRE line) of
        Some mo \<Rightarrow>
          Inr (Proceed st
                 (drop 1 (concat (map (\<lambda>itemMatch. ''# '' @ prefix st @ [CHR 0x09] @ itemMatch @ linesep)
                                      (re_findall plain listItemRE (stripOutAnds (group0 mo)))))))
      | None \<Rightarrow> examples_heading opts compile_command lineNum st line)"

definition raises_heading ::
  "options \<Rightarrow> (string \<Rightarrow> compile_result) \<Rightarrow> int \<Rightarrow> rewriter \<Rightarrow> string \<Rightarrow> error + flow" where
  "raises_heading opts compile_command lineNum st line =
     (case re_match IGNORECASE raisesStartRE line of
        Some mo \<Rightarrow>
          and_then (end_code_on_last
                      (st\<lparr>prefix := (if contains ''see'' (lower (group mo 1))
                                      then ''@sa'' @ [CHR 0x09]
                                      else ''@exception'' @ [CHR 0x09])\<rparr>)) (\<lambda>st'.
            Inr (Continue (st'\<lparr>lines := lines st' @
                   [''#'' @ rstrip (py_replace (group0 mo) [] line)]\<rparr>)))
      | None \<Rightarrow> list_line opts compile_command lineNum st line)"

definition args_line ::
  "options \<Rightarrow> (string \<Rightarrow> compile_result) \<Rightarrow> int \<Rightarrow> rewriter \<Rightarrow> string \<Rightarrow> error + flow" where
  \<comment> \<open>an item / description pair; \<open>name\<close> is group 1 and \<open>desc\<close> is group 3\<close>
  "args_line opts compile_command lineNum st line =
     (case (if inCodeBlock st then None else re_match plain argsRE line) of
        Some mo \<Rightarrow>
          if contains ''property'' (prefix st)
          then Inr (Proceed st (''# '' @ prefix st @ [CHR 0x09] @ group mo 1 @ linesep @
                                ''# '' @ group mo 3))
          else Inr (Proceed st ('' '' @ prefix st @ [CHR 0x09] @ group mo 1 @ [CHR 0x09] @
                                group mo 3))
      | None \<Rightarrow> raises_heading opts compile_command lineNum st line)"

definition args_heading ::
  "options \<Rightarrow> (string \<Rightarrow> compile_result) \<Rightarrow> int \<Rightarrow> rewriter \<Rightarrow> string \<Rightarrow> error + flow" where
  "args_heading opts compile_command lineNum st line =
     (case re_match IGNORECASE argsStartRE line of
        Some mo \<Rightarrow>
          and_then (end_code_on_last
                      (st\<lparr>prefix := (if contains ''attr'' (lower (group0 mo))
                                      then ''@property'' @ [CHR 0x09]
                                      else ''@param'' @ [CHR 0x09])\<rparr>)) (\<lambda>st'.
            Inr (Continue (st'\<lparr>lines := lines st' @
                   [''#'' @ rstrip (py_replace (group0 mo) [] line)]\<rparr>)))
      | None \<Rightarrow> args_line opts compile_command lineNum st line)"

definition returns_heading ::
  "options \<Rightarrow> (string \<Rightarrow> compile_result) \<Rightarrow> int \<Rightarrow> rewriter \<Rightarrow> string \<Rightarrow> error + flow" where
  "returns_heading opts compile_command lineNum st line =
     (case re_match IGNORECASE returnsStartRE line of
        Some mo \<Rightarrow>
          Inr (Proceed (st\<lparr>prefix := ''@return'' @ [CHR 0x09]\<rparr>)
                 (rstrip (py_replace (group0 mo) ('' @return'' @ [CHR 0x09]) line)))
      | None \<Rightarrow> args_heading opts compile_command lineNum st line)"

definition append_line :: "string \<Rightarrow> int \<Rightarrow> rewriter \<Rightarrow> string \<Rightarrow> rewriter" where
  \<comment> \<open>the tail, the comment marker, and \<open>lines.append\<close>\<close>
  "append_line tail lineNum st line =
     st\<lparr>lines := lines st @
       [py_replace ('' '' @ linesep) linesep
          ((if lineNum = 0 then ''#'' else []) @ ''#'' @
           rstrip (if tail \<noteq> [] \<and> lineNum = int (length (docLines st)) - 1
                   then rstrip line @ linesep @ ''# '' @ tail else line))]\<rparr>"

definition flush :: "int \<Rightarrow> rewriter \<Rightarrow> error + rewriter" where
  \<comment> \<open>\<open>if timeToSend: ...\<close>\<close>
  "flush lineNum st =
     (if timeToSend st then
        and_then (end_code_on_last st) (\<lambda>st'.
          Inr (st'\<lparr>docLines := writeDocstring (docLines st') (firstLineNum st') lineNum (lines st'),
                   lines := [], firstLineNum := -1, timeToSend := False\<rparr>))
      else Inr st)"

definition alterDocstring_send ::
  "options \<Rightarrow> (string \<Rightarrow> compile_result) \<Rightarrow> string \<Rightarrow> rewriter \<Rightarrow> int \<Rightarrow> string option \<Rightarrow>
   error + rewriter" where
  \<comment> \<open>\<open>docstringConverter.send((lineNum, line))\<close>: one pass of the loop body; \<open>None\<close> is the sentinel\<close>
  "alterDocstring_send opts compile_command tail st0 lineNum line_opt =
     (case line_opt of
        None \<Rightarrow>
          flush lineNum
            (st0\<lparr>firstLineNum := (if firstLineNum st0 < 0 then lineNum else firstLineNum st0),
                 timeToSend := True\<rparr>)
      | Some line \<Rightarrow>
          if autobrief opts then
            and_then (single_line_tags lineNum singleLineREs
                        (st0\<lparr>firstLineNum :=
                               (if firstLineNum st0 < 0 then lineNum else firstLineNum st0)\<rparr>,
                         line)) (\<lambda>x.
            and_then (section_continuation opts (fst x) (snd x)) (\<lambda>st.
            and_then (returns_heading opts compile_command lineNum st (snd x)) (\<lambda>fl.
              case fl of
                Continue st' \<Rightarrow> Inr st'
              | Proceed st' line' \<Rightarrow> flush lineNum (append_line tail lineNum st' line'))))
          else
            flush lineNum
              (append_line tail lineNum
                 (st0\<lparr>firstLineNum :=
                        (if firstLineNum st0 < 0 then lineNum else firstLineNum st0)\<rparr>)
                 line))"

text \<open>
  The loop of \<open>_processDocstring\<close> that feeds the rewriter: \<open>for lineInfo in
  enumerate(self.docLines)\<close> reads \<open>self.docLines\<close> as it is when each line is due, and
  the writer may have changed it by then.
\<close>

partial_function (option) feed ::
  "options \<Rightarrow> (string \<Rightarrow> compile_result) \<Rightarrow> string \<Rightarrow> nat \<Rightarrow> rewriter \<Rightarrow> (error + rewriter) option" where
  "feed opts compile_command tail i st =
     (if i < length (docLines st) then
        (case alterDocstring_send opts compile_command tail st (int i) (Some (docLines st ! i)) of
           Inl e \<Rightarrow> Some (Inl e)
         | Inr st' \<Rightarrow> feed opts compile_command tail (Suc i) st')
      else Some (Inr st))"

declare feed.simps [code]

definition convert ::
  "options \<Rightarrow> (string \<Rightarrow> compile_result) \<Rightarrow> string \<Rightarrow> string list \<Rightarrow> (error + string list) option" where
  \<comment> \<open>the rewriter run over a documentation block: every line, then the sentinel
      \<open>(len(self.docLines) - 1, None)\<close>; the result is \<open>self.docLines\<close> afterwards\<close>
  "convert opts compile_command tail dls =
     (case feed opts compile_command tail 0 (alterDocstring dls) of
        None \<Rightarrow> None
      | Some (Inl e) \<Rightarrow> Some (Inl e)
      | Some (Inr st) \<Rightarrow>
          Some (and_then (alterDocstring_send opts compile_command tail st
                            (int (length (docLines st)) - 1) None)
                  (\<lambda>st'. Inr (docLines st'))))"

section \<open>Member names (\<open>AstWalker._checkMemberName\<close>, \<open>AstWalker._processMembers\<close>)\<close>

definition checkMemberName :: "string \<Rightarrow> string option" where
  \<comment> \<open>\<open>None\<close> is Python's \<open>None\<close>: no restriction\<close>
  "checkMemberName name =
     (if \<not> endswith ''__'' name then
        (if startswith ''__'' name then Some ''private''
         else if startswith ''_'' name then Some ''protected''
         else None)
      else None)"

definition processMembers :: "string \<Rightarrow> string \<Rightarrow> string" where
  \<comment> \<open>\<open>self._processMembers(node, contextTag)\<close>, which reads only \<open>node.name\<close>\<close>
  "processMembers name contextTag =
     (case checkMemberName name of
        Some restrictionLevel \<Rightarrow> contextTag @ linesep @ ''# @'' @ restrictionLevel
      | None \<Rightarrow> contextTag)"

section \<open>Docstring bounds and the final splice (\<open>AstWalker._processDocstring\<close>)\<close>

datatype kind = KModule | KClass | KInterface | KFunction

datatype typeName = Module | ClassDef | FunctionDef

fun scan_marker :: "nat \<Rightarrow> string \<Rightarrow> string list \<Rightarrow> nat \<times> string \<times> match option" where
  \<comment> \<open>the first \<open>while\<close> loop: \<open>curLineNum\<close>, \<open>line\<close> and \<open>match\<close> when it ends\<close>
  "scan_marker cur line [] = (cur, line, None)"
| "scan_marker cur line (l # ls) =
     (case re_match plain docstrMarkerRE l of
        Some mo \<Rightarrow> (cur, l, Some mo)
      | None \<Rightarrow> scan_marker (Suc cur) l ls)"

fun scan_end :: "nat \<Rightarrow> string \<Rightarrow> string list \<Rightarrow> nat" where
  \<comment> \<open>the second \<open>while\<close> loop, looking for the closing quotes\<close>
  "scan_end cur quotes [] = cur"
| "scan_end cur quotes (l # ls) =
     (if 0 \<le> py_find quotes l then cur else scan_end (Suc cur) quotes ls)"

definition docstring_end :: "string list \<Rightarrow> nat \<times> string \<times> match option \<Rightarrow> error + nat" where
  \<comment> \<open>\<open>endLineNum\<close>; \<open>match.group(2)\<close> is read only when a line is left to scan\<close>
  "docstring_end ls found =
     (case found of (cur, line, mo_opt) \<Rightarrow>
        if re_match plain docstrOneLineRE line = None then
          (case mo_opt of
             Some mo \<Rightarrow> Inr (scan_end (Suc cur) (group mo 2) (drop (Suc cur) ls) + 1)
           | None \<Rightarrow> if drop (Suc cur) ls = [] then Inr (Suc cur + 1) else Inl AttributeError)
        else Inr (cur + 1))"

definition strip_markers :: "string list \<Rightarrow> string list" where
  \<comment> \<open>\<open>RE._docstrMarkerRE.sub('', ...)\<close> on the first and then on the last line\<close>
  "strip_markers dls =
     (if dls = [] then dls
      else (dls[0 := re_sub plain docstrMarkerRE [] (dls ! 0)])
             [length dls - 1 :=
                re_sub plain docstrMarkerRE []
                  ((dls[0 := re_sub plain docstrMarkerRE [] (dls ! 0)]) ! (length dls - 1))])"

function rotate_blank :: "nat \<Rightarrow> string list \<Rightarrow> string list" where
  \<comment> \<open>the loop with \<open>safetyCounter\<close>: leading blank lines move to the end\<close>
  "rotate_blank safetyCounter dls =
     (if dls \<noteq> [] \<and> strip (lstrip_chars ''#'' (hd dls)) = [] then
        (if Suc safetyCounter \<ge> length (tl dls @ [[]]) then tl dls @ [[]]
         else rotate_blank (Suc safetyCounter) (tl dls @ [[]]))
      else dls)"
  by pat_completeness auto
termination
  by (relation "measure (\<lambda>(n, dls). length dls - n)") auto

definition brief :: "string list \<Rightarrow> string list" where
  \<comment> \<open>the \<open>@brief\<close> tag on the first line\<close>
  "brief dls =
     (if length dls = 1 \<or>
         (length dls \<ge> 2 \<and>
          (strip_chars (string_whitespace @ ''#'') (dls ! 1) = [] \<or>
           startswith ''@'' (strip_chars (string_whitespace @ ''#'') (dls ! 1))))
      then (if length dls > 1 \<and> dls ! 1 = ''# @par''
            then (dls[0 := ''## @brief '' @ lstrip_chars ''#'' (dls ! 0)])[1 := ''#'']
            else dls[0 := ''## @brief '' @ lstrip_chars ''#'' (dls ! 0)])
      else dls)"

definition indent_str :: "string \<Rightarrow> string" where
  \<comment> \<open>\<open>match = RE._indentRE.match(s); indentStr = match and match.group(1) or ''\<close>\<close>
  "indent_str s = (case re_match plain indentRE s of None \<Rightarrow> [] | Some mo \<Rightarrow> group mo 1)"

fun first_var :: "nat \<Rightarrow> string list \<Rightarrow> error + nat \<times> string" where
  \<comment> \<open>\<open>for firstVarLineNum, firstVarLine in enumerate(self.docLines)\<close>: the loop variables
      after the loop; they are unbound when the list is empty\<close>
  "first_var i [] = Inl UnboundLocalError"
| "first_var i [l] = Inr (i, l)"
| "first_var i (l # l' # ls) =
     (if contains (''@property'' @ [CHR 0x09]) l then Inr (i, l) else first_var (Suc i) (l' # ls))"

fun last_var :: "nat \<Rightarrow> nat \<Rightarrow> string list \<Rightarrow> nat" where
  \<comment> \<open>\<open>while lastVarLineNum > firstVarLineNum: ...\<close>\<close>
  "last_var firstVarLineNum 0 dls = 0"
| "last_var firstVarLineNum (Suc n) dls =
     (if Suc n > firstVarLineNum then
        (if contains (''@property'' @ [CHR 0x09]) (dls ! n) then n
         else last_var firstVarLineNum n dls)
      else Suc n)"

fun find_indent :: "string list \<Rightarrow> string" where
  \<comment> \<open>\<open>while not indentStr and indentLineNum < len(self.lines): ...\<close>\<close>
  "find_indent [] = []"
| "find_indent (l # ls) = (if indent_str l \<noteq> [] then indent_str l else find_indent ls)"

definition var_lines :: "string \<Rightarrow> string list \<Rightarrow> string list" where
  \<comment> \<open>\<open>varLines\<close>: the property lines, each on a new line under \<open>indentStr\<close>\<close>
  "var_lines indentStr propertyLines =
     map (\<lambda>docLine. py_replace linesep (linesep @ indentStr) (linesep @ docLine)) propertyLines"

definition relocate_namespace ::
  "string list \<times> string list \<Rightarrow> error + string list \<times> string list" where
  \<comment> \<open>a namespace tag at the end of \<open>defLines[-1]\<close> moves to the end of \<open>self.docLines[-1]\<close>\<close>
  "relocate_namespace x =
     (case x of (dls, defLines) \<Rightarrow>
        and_then (py_get defLines (-1)) (\<lambda>lastDef.
          if 0 \<le> py_find (linesep @ ''# @namespace'') lastDef then
            and_then (py_get dls (-1)) (\<lambda>lastDoc.
              Inr (butlast dls @
                     [lastDoc @ drop (nat (py_find (linesep @ ''# @namespace'') lastDef)) lastDef],
                   butlast defLines @
                     [take (nat (py_find (linesep @ ''# @namespace'') lastDef)) lastDef]))
          else Inr (dls, defLines)))"

definition hoist_properties ::
  "string list \<Rightarrow> nat \<Rightarrow> string list \<times> string list \<Rightarrow> error + string list \<times> string list" where
  \<comment> \<open>the branch for classes under autobrief; the pair is \<open>(self.docLines, defLines)\<close>\<close>
  "hoist_properties ls endLineNum x =
     (case x of (dls, defLines) \<Rightarrow>
        and_then (first_var 0 dls) (\<lambda>(firstVarLineNum, firstVarLine).
          if contains (''@property'' @ [CHR 0x09]) firstVarLine \<and> firstVarLineNum < length dls
          then relocate_namespace
                 (py_slice_assign dls (int firstVarLineNum)
                    (int (last_var firstVarLineNum (length dls) dls + 1)) [],
                  defLines @
                    var_lines (find_indent (drop endLineNum ls))
                      (py_slice dls (int firstVarLineNum)
                         (int (last_var firstVarLineNum (length dls) dls + 1))))
          else Inr (dls, defLines)))"

definition insert_pass :: "string \<Rightarrow> string list \<Rightarrow> error + string list" where
  \<comment> \<open>\<open>defLines[-1] = '{0}{1}{2}pass'.format(defLines[-1], linesep, indentStr)\<close>\<close>
  "insert_pass indentStr defLines =
     and_then (py_get defLines (-1)) (\<lambda>l.
       py_set defLines (-1) (l @ linesep @ indentStr @ ''pass''))"

definition getFullPathName :: "options \<Rightarrow> (string \<times> kind) list \<Rightarrow> (string \<times> kind) list" where
  "getFullPathName opts containingNodes = (fullPathNamespace opts, KModule) # containingNodes"

definition rewrite_parts ::
  "options \<Rightarrow> typeName \<Rightarrow> (string \<times> kind) list \<Rightarrow> string list \<Rightarrow> nat \<Rightarrow> nat \<Rightarrow>
   string list \<times> string list \<Rightarrow> error + string list \<times> string list" where
  \<comment> \<open>the statements between the rewriter and the final splice, for a class or a function:
      the \<open>pass\<close> of an interface member, or the property lines of a class\<close>
  "rewrite_parts opts tn containingNodes ls docstringStart endLineNum x =
     and_then (py_get (getFullPathName opts containingNodes) (-2)) (\<lambda>parent.
     and_then (py_get (getFullPathName opts containingNodes) (-1)) (\<lambda>self.
       if (snd parent = KInterface \<and> tn = FunctionDef) \<or> snd self = KInterface then
         and_then (insert_pass (if docstringStart < length ls
                                then indent_str (ls ! docstringStart) else []) (snd x))
           (\<lambda>defLines. Inr (fst x, defLines))
       else if autobrief opts \<and> tn = ClassDef then hoist_properties ls endLineNum x
       else Inr x))"

definition add_brief :: "options \<Rightarrow> string list \<Rightarrow> string list" where
  \<comment> \<open>\<open>if self.options.autobrief: ...\<close>\<close>
  "add_brief opts dls = (if autobrief opts then brief (rotate_blank 0 dls) else dls)"

definition indent_doc :: "string list \<Rightarrow> string list \<Rightarrow> string list" where
  \<comment> \<open>\<open>if defLines: ...\<close>: the comment markers move under the indentation of the declaration\<close>
  "indent_doc defLines dls =
     (if defLines \<noteq> []
      then map (re_sub MULTILINE newlineRE (indent_str (defLines ! 0) @ ''#'')) dls
      else dls)"

definition splice ::
  "typeName \<Rightarrow> string list \<Rightarrow> nat \<Rightarrow> nat \<Rightarrow> string list \<times> string list \<Rightarrow> string list" where
  \<comment> \<open>the last statement: \<open>self.lines[startLineNum: endLineNum] = ...\<close>\<close>
  "splice tn ls startLineNum endLineNum x =
     (if tn \<noteq> Module
      then py_slice_assign ls (int startLineNum) (int endLineNum) (fst x @ snd x)
      else py_slice_assign ls (int startLineNum) (int endLineNum) (snd x @ fst x))"

definition docstring_bounds :: "string list \<Rightarrow> nat \<Rightarrow> error + nat \<times> nat" where
  \<comment> \<open>\<open>(docstringStart, endLineNum)\<close>\<close>
  "docstring_bounds ls startLineNum =
     and_then (docstring_end ls (scan_marker startLineNum [] (drop startLineNum ls)))
       (\<lambda>endLineNum. Inr (fst (scan_marker startLineNum [] (drop startLineNum ls)), endLineNum))"

definition rewrite_block ::
  "options \<Rightarrow> (string \<Rightarrow> compile_result) \<Rightarrow> string \<Rightarrow> string list \<Rightarrow> (error + string list) option" where
  \<comment> \<open>\<open>if self.docLines: ...\<close>: the delimiters go, the rewriter runs\<close>
  "rewrite_block opts compile_command tail dls =
     (if dls = [] then Some (Inr [])
      else convert opts compile_command tail (strip_markers dls))"

definition assemble ::
  "options \<Rightarrow> typeName \<Rightarrow> (string \<times> kind) list \<Rightarrow> string list \<Rightarrow> nat \<Rightarrow> nat \<Rightarrow> nat \<Rightarrow>
   string list \<Rightarrow> error + string list" where
  \<comment> \<open>everything after the rewriter: brief tag, indentation, \<open>pass\<close> or property lines, splice;
      \<open>defLines\<close> is \<open>self.lines[startLineNum: docstringStart]\<close>\<close>
  "assemble opts tn containingNodes ls startLineNum docstringStart endLineNum dls =
     and_then
       (if tn \<noteq> Module
        then rewrite_parts opts tn containingNodes ls docstringStart endLineNum
               (indent_doc (py_slice ls (int startLineNum) (int docstringStart)) (add_brief opts dls),
                py_slice ls (int startLineNum) (int docstringStart))
        else Inr (indent_doc (py_slice ls (int startLineNum) (int docstringStart))
                    (add_brief opts dls),
                  py_slice ls (int startLineNum) (int docstringStart)))
       (\<lambda>x. Inr (splice tn ls startLineNum endLineNum x))"

definition processDocstring ::
  "options \<Rightarrow> (string \<Rightarrow> compile_result) \<Rightarrow> typeName \<Rightarrow> nat \<Rightarrow> string \<Rightarrow>
   (string \<times> kind) list \<Rightarrow> string list \<Rightarrow> (error + string list) option" where
  \<comment> \<open>\<open>self._processDocstring(node, tail, containingNodes=...)\<close>: the new \<open>self.lines\<close>;
      \<open>startLineNum\<close> is \<open>node.lineno - 1\<close>, and 0 for a module\<close>
  "processDocstring opts compile_command tn startLineNum tail containingNodes ls =
     (case docstring_bounds ls startLineNum of
        Inl e \<Rightarrow> Some (Inl e)
      | Inr (docstringStart, endLineNum) \<Rightarrow>
          (case rewrite_block opts compile_command tail
                  (py_slice ls (int docstringStart) (int endLineNum)) of
             None \<Rightarrow> None
           | Some (Inl e) \<Rightarrow> Some (Inl e)
           | Some (Inr dls) \<Rightarrow>
               Some (assemble opts tn containingNodes ls startLineNum docstringStart
                       endLineNum dls)))"

section \<open>The structural walker (\<open>AstVisit\<close>)\<close>

text \<open>
  The syntax tree comes from Python's parser. The model keeps of a node what the walker
  reads: its class, \<open>name\<close>, \<open>lineno\<close>, whether \<open>get_docstring(node)\<close> is a non-empty
  text, for an assignment the \<open>id\<close> of \<open>targets[0]\<close> when that is a \<open>Name\<close>, and the child
  nodes in the order of \<open>iter_fields\<close>. Line numbers start at 1.

  \<open>AstWalker\<close> inherits from \<open>AstVisit\<close> and then from \<open>ast.NodeVisitor\<close>, and \<open>visit\<close>
  looks up with \<open>getattr\<close> the method named \<open>visit_\<close> and the class. For the five classes above
  it finds the methods of \<open>AstVisit\<close>. For a \<open>Constant\<close> node, which is what the parser of
  CPython 3.8 and later makes of every literal and so of every docstring, it finds
  \<open>NodeVisitor.visit_Constant(self, node)\<close>, defined by these versions of the library;
  that method takes no keyword argument, so the call
  \<open>visitor(node, containingNodes=containingNodes)\<close> raises \<open>TypeError\<close>. Every other class
  has no method and goes to \<open>generic_visit\<close>; so do the \<open>Str\<close> and \<open>Num\<close> nodes of the
  parsers before 3.8, which are \<open>OtherNode\<close> here.
\<close>

datatype node =
    ModuleNode bool "node list"
  | ClassDefNode string nat bool "node list"
  | FunctionDefNode string nat bool "node list"
  | AssignNode nat "string option" "node list"
  | CallNode nat "node list"
  | ConstantNode
  | OtherNode "node list"

definition join :: "string \<Rightarrow> string list \<Rightarrow> string" where
  \<comment> \<open>\<open>sep.join(xs)\<close>\<close>
  "join sep xs = (case xs of [] \<Rightarrow> [] | y # ys \<Rightarrow> y @ concat (map (\<lambda>z. sep @ z) ys))"

definition class_kind :: "string \<Rightarrow> kind" where
  \<comment> \<open>what \<open>visit_ClassDef\<close> pushes for a class whose line is \<open>line\<close>\<close>
  "class_kind line =
     (case re_match IGNORECASE interfaceRE line of Some mo \<Rightarrow> KInterface | None \<Rightarrow> KClass)"

definition class_tail :: "options \<Rightarrow> (string \<times> kind) list \<Rightarrow> string" where
  \<comment> \<open>\<open>tail\<close> in \<open>visit_ClassDef\<close>; \<open>containingNodes\<close> already holds the class\<close>
  "class_tail opts containingNodes =
     (if topLevelNamespace opts \<noteq> []
      then ''@namespace '' @ join ''.'' (map fst (getFullPathName opts containingNodes))
      else [])"

definition class_contextTag ::
  "options \<Rightarrow> string \<Rightarrow> string \<Rightarrow> (string \<times> kind) list \<Rightarrow> string" where
  \<comment> \<open>\<open>contextTag\<close> in \<open>visit_ClassDef\<close>, as passed to \<open>_processDocstring\<close>\<close>
  "class_contextTag opts name line containingNodes =
     processMembers name
       (case re_match IGNORECASE interfaceRE line of
          Some mo \<Rightarrow> class_tail opts containingNodes @ linesep @ ''# @interface '' @ group mo 1
        | None \<Rightarrow> class_tail opts containingNodes)"

definition function_tail :: "options \<Rightarrow> string \<Rightarrow> (string \<times> kind) list \<Rightarrow> string" where
  \<comment> \<open>\<open>tail\<close> in \<open>visit_FunctionDef\<close>\<close>
  "function_tail opts name containingNodes =
     (if topLevelNamespace opts \<noteq> []
      then ''@namespace '' @
           processMembers name (join ''.'' (map fst (getFullPathName opts containingNodes)))
      else processMembers name [])"

definition assign_attribute :: "string option \<Rightarrow> string \<Rightarrow> error + string" where
  \<comment> \<open>the interface attribute case of \<open>visit_Assign\<close>; formatting \<open>{0.id}\<close> for the trace
      message reads \<open>targets[0].id\<close> whatever the target is\<close>
  "assign_attribute target line =
     (case re_match IGNORECASE attributeRE line of
        None \<Rightarrow> Inr line
      | Some mo \<Rightarrow>
          if target = None then Inl AttributeError
          else Inr (group mo 1 @ ''## @property '' @ group mo 2 @ linesep @
                    group mo 1 @ ''# '' @ group mo 3 @ linesep @
                    group mo 1 @ ''# @hideinitializer'' @ linesep @
                    rstrip line @ linesep))"

definition assign_variable :: "string option \<Rightarrow> string \<Rightarrow> string" where
  \<comment> \<open>the restricted variable case of \<open>visit_Assign\<close>\<close>
  "assign_variable target line =
     (case target of
        None \<Rightarrow> line
      | Some ident \<Rightarrow>
          (case checkMemberName ident of
             None \<Rightarrow> line
           | Some restrictionLevel \<Rightarrow>
               indent_str line @ ''## @var '' @ ident @ linesep @
               indent_str line @ ''# @hideinitializer'' @ linesep @
               indent_str line @ ''# @'' @ restrictionLevel @ linesep @
               rstrip line @ linesep))"

definition call_implements :: "string \<Rightarrow> string" where
  \<comment> \<open>the interface implementation case of \<open>visit_Call\<close>\<close>
  "call_implements line =
     (case re_match IGNORECASE implementsRE line of
        None \<Rightarrow> line
      | Some mo \<Rightarrow>
          group mo 1 @ ''## @implements '' @ group mo 2 @ linesep @
          group mo 1 @ rstrip line @ linesep)"

definition on_line ::
  "string list \<Rightarrow> nat \<Rightarrow> (string \<Rightarrow> error + string) \<Rightarrow> (error + string list) option" where
  \<comment> \<open>\<open>self.lines[lineNum]\<close> read, and written with what \<open>f\<close> makes of it\<close>
  "on_line ls lineNum f =
     Some (and_then (py_get ls (int lineNum)) (\<lambda>l.
           and_then (f l) (\<lambda>l'. py_set ls (int lineNum) l')))"

fun visit ::
  "options \<Rightarrow> (string \<Rightarrow> compile_result) \<Rightarrow> (string \<times> kind) list \<Rightarrow> node \<Rightarrow> string list \<Rightarrow>
   (error + string list) option"
and generic_visit ::
  "options \<Rightarrow> (string \<Rightarrow> compile_result) \<Rightarrow> (string \<times> kind) list \<Rightarrow> node list \<Rightarrow> string list \<Rightarrow>
   (error + string list) option"
where
  "generic_visit opts cc containingNodes [] ls = Some (Inr ls)"
| "generic_visit opts cc containingNodes (item # items) ls =
     (case visit opts cc containingNodes item ls of
        Some (Inr ls') \<Rightarrow> generic_visit opts cc containingNodes items ls'
      | r \<Rightarrow> r)"
| "visit opts cc containingNodes (ModuleNode has_docstring body) ls =
     (case (if has_docstring then processDocstring opts cc Module 0 [] [] ls
            else Some (Inr ls)) of
        Some (Inr ls') \<Rightarrow> generic_visit opts cc containingNodes body ls'
      | r \<Rightarrow> r)"
| "visit opts cc containingNodes (ClassDefNode name lineno has_docstring body) ls =
     (case py_get ls (int (lineno - 1)) of
        Inl e \<Rightarrow> Some (Inl e)
      | Inr line \<Rightarrow>
          (case (if has_docstring
                 then processDocstring opts cc ClassDef (lineno - 1)
                        (class_contextTag opts name line
                           (containingNodes @ [(name, class_kind line)]))
                        (containingNodes @ [(name, class_kind line)]) ls
                 else Some (Inr ls)) of
             Some (Inr ls') \<Rightarrow>
               generic_visit opts cc (containingNodes @ [(name, class_kind line)]) body ls'
           | r \<Rightarrow> r))"
| "visit opts cc containingNodes (FunctionDefNode name lineno has_docstring body) ls =
     (case (if has_docstring
            then processDocstring opts cc FunctionDef (lineno - 1)
                   (function_tail opts name (containingNodes @ [(name, KFunction)]))
                   (containingNodes @ [(name, KFunction)]) ls
            else Some (Inr ls)) of
        Some (Inr ls') \<Rightarrow> generic_visit opts cc (containingNodes @ [(name, KFunction)]) body ls'
      | r \<Rightarrow> r)"
| "visit opts cc containingNodes (AssignNode lineno target body) ls =
     (case on_line ls (lineno - 1)
             (\<lambda>l. and_then (assign_attribute target l) (\<lambda>l'. Inr (assign_variable target l'))) of
        Some (Inr ls') \<Rightarrow> generic_visit opts cc containingNodes body ls'
      | r \<Rightarrow> r)"
| "visit opts cc containingNodes (CallNode lineno body) ls =
     (case on_line ls (lineno - 1) (\<lambda>l. Inr (call_implements l)) of
        Some (Inr ls') \<Rightarrow> generic_visit opts cc containingNodes body ls'
      | r \<Rightarrow> r)"
| "visit opts cc containingNodes ConstantNode ls = Some (Inl TypeError)"
| "visit opts cc containingNodes (OtherNode body) ls =
     generic_visit opts cc containingNodes body ls"


definition getLines :: "string list \<Rightarrow> string" where
  "getLines ls = join linesep (map rstrip ls)"

definition lineOfCode ::
  "(string \<Rightarrow> compile_result) \<Rightarrow> checker \<Rightarrow> string \<Rightarrow> string list \<Rightarrow> int \<Rightarrow> bool option" where
  \<comment> \<open>the variable \<open>lineOfCode\<close> when \<open>send((line, lines, lineNum))\<close> returns: \<open>None\<close> while
      the detector waits in its inner loop for a further line\<close>
  "lineOfCode compile_command ck line ls lineNum =
     (case checker_resume ck line lineNum of
        (ck', Some b) \<Rightarrow> Some b
      | (ck', None) \<Rightarrow>
          (case classify compile_command ck' ls of
             NeedLine y \<Rightarrow> None
           | LineOfCode b \<Rightarrow> Some b))"

section \<open>Notions used by the properties\<close>

definition plain_line :: "string \<Rightarrow> bool" where
  \<comment> \<open>a line that none of the patterns tried by the rewriter under autobrief matches\<close>
  "plain_line line =
     (list_all (\<lambda>tag. re_search IGNORECASE (snd tag) line = None) singleLineREs \<and>
      re_match IGNORECASE returnsStartRE line = None \<and>
      re_match IGNORECASE argsStartRE line = None \<and>
      re_match plain argsRE line = None \<and>
      re_match IGNORECASE raisesStartRE line = None \<and>
      re_match plain listRE line = None \<and>
      re_match IGNORECASE examplesStartRE line = None \<and>
      re_match plain sectionStartRE line = None)"

definition single_line :: "string \<Rightarrow> bool" where
  \<comment> \<open>a line as \<open>readlines\<close> gives it: a line break stands at its end or nowhere\<close>
  "single_line l = (CHR 0x0A \<notin> set (butlast l))"

definition commented :: "string \<Rightarrow> nat \<Rightarrow> nat \<Rightarrow> string \<Rightarrow> string" where
  \<comment> \<open>line \<open>i\<close> of a block of \<open>n\<close> lines as the rewriter appends it when it changes nothing
      else: the tail on the last line, the comment marker, a second one on line 0\<close>
  "commented tail n i l =
     py_replace ('' '' @ linesep) linesep
       ((if int i = 0 then ''#'' else []) @ ''#'' @
        rstrip (if tail \<noteq> [] \<and> int i = int n - 1
                then rstrip l @ linesep @ ''# '' @ tail else l))"

definition lit_prefix :: "re_flags \<Rightarrow> string \<Rightarrow> string \<Rightarrow> bool" where
  \<comment> \<open>the text \<open>t\<close> begins with the literal \<open>s\<close>, as the flags compare characters\<close>
  "lit_prefix fl s t =
     (length s \<le> length t \<and>
      list_all (\<lambda>i. cclass_match (ignorecase fl) (CChar (s ! i)) (t ! i)) [0..<length s])"

definition starts :: "re_flags \<Rightarrow> string list \<Rightarrow> regex \<Rightarrow> bool" where
  \<comment> \<open>whatever follows it, the pattern matches only a text that begins with one of the literals\<close>
  "starts fl S a = (\<forall>k st r. m fl a k st = Some r \<longrightarrow> list_ex (\<lambda>s. lit_prefix fl s (rest st)) S)"



section \<open>Verified properties\<close>

subsection \<open>Visibility of member names\<close>

text \<open>
  Claim C4. For every name, \<open>_checkMemberName\<close> returns \<open>protected\<close> when the name
  starts with exactly one underscore and does not end with two, \<open>private\<close> when it
  starts with two underscores and does not end with two, and no restriction when it ends
  with two underscores; \<open>_processMembers\<close> then leaves the context tag as it is.
\<close>

theorem checkMemberName_visibility:
  "(startswith ''_'' name \<and> \<not> startswith ''__'' name \<and> \<not> endswith ''__'' name
      \<longrightarrow> checkMemberName name = Some ''protected'') \<and>
   (startswith ''__'' name \<and> \<not> endswith ''__'' name
      \<longrightarrow> checkMemberName name = Some ''private'') \<and>
   (endswith ''__'' name
      \<longrightarrow> checkMemberName name = None \<and> processMembers name contextTag = contextTag)"
  by (simp add: checkMemberName_def processMembers_def)

theorem checkMemberName_visibility_witness:
  "checkMemberName ''_cache'' = Some ''protected'' \<and>
   checkMemberName ''__secret'' = Some ''private'' \<and>
   checkMemberName ''__init__'' = None \<and>
   processMembers ''__init__'' ''@namespace m'' = ''@namespace m''"
  using checkMemberName_visibility [of "''_cache''"]
        checkMemberName_visibility [of "''__secret''"]
        checkMemberName_visibility [of "''__init__''" "''@namespace m''"]
  by (simp add: startswith_def endswith_def)

subsection \<open>The block writer\<close>

text \<open>
  Claim C3. For a rewrite batch \<open>(first, lastNum, ls)\<close> with line numbers as the rewriter
  sends them (\<open>0 \<le> first \<le> lastNum + 1\<close>), the writer pads the list with empty strings to
  at least \<open>lastNum - first + 1\<close> entries and replaces exactly the slice
  \<open>[first, lastNum + 1)\<close> of the buffer by the padded list: the lines before and after the
  slice stay, the replacement is at least as long as the slice it replaces, and the
  buffer does not shrink.
\<close>

theorem writeDocstring_replaces_slice:
  assumes "0 \<le> first" and "first \<le> lastNum + 1"
  shows "pad ls (lastNum - first + 1) =
           ls @ replicate (nat (lastNum - first + 1 - int (length ls))) [] \<and>
         lastNum - first + 1 \<le> int (length (pad ls (lastNum - first + 1))) \<and>
         writeDocstring buffer first lastNum ls =
           take (nat first) buffer @ pad ls (lastNum - first + 1) @
           drop (nat (lastNum + 1)) buffer \<and>
         length (py_slice buffer first (lastNum + 1))
           \<le> length (pad ls (lastNum - first + 1)) \<and>
         length buffer \<le> length (writeDocstring buffer first lastNum ls)"
proof -
  let ?n = "length buffer"
  have b1: "slice_bound ?n first = min ?n (nat first)"
    using assms by (simp add: slice_bound_def)
  have b2: "slice_bound ?n (lastNum + 1) = min ?n (nat (lastNum + 1))"
    using assms by (simp add: slice_bound_def)
  have le: "nat first \<le> nat (lastNum + 1)" using assms by simp
  have w: "writeDocstring buffer first lastNum ls =
           take (nat first) buffer @ pad ls (lastNum - first + 1) @
           drop (nat (lastNum + 1)) buffer"
  proof -
    have "max (min ?n (nat first)) (min ?n (nat (lastNum + 1)))
            = min ?n (nat (lastNum + 1))"
      using le by simp
    then show ?thesis
      unfolding writeDocstring_def py_slice_assign_def b1 b2
      by (simp add: min_def)
  qed
  have p: "lastNum - first + 1 \<le> int (length (pad ls (lastNum - first + 1)))"
    by (simp add: pad_def)
  have s: "length (py_slice buffer first (lastNum + 1))
           \<le> length (pad ls (lastNum - first + 1))"
    using p assms unfolding py_slice_def b1 b2 by simp
  have g: "length buffer \<le> length (writeDocstring buffer first lastNum ls)"
    using p assms unfolding w by simp
  show ?thesis using w p s g by (simp add: pad_def)
qed

theorem writeDocstring_replaces_slice_witness:
  "(0::int) \<le> 1 \<and> (1::int) \<le> 2 + 1 \<and>
   writeDocstring [''a'', ''b'', ''c'', ''d''] 1 2 [''#x''] = [''a'', ''#x'', [], ''d'']"
  using writeDocstring_replaces_slice [of 1 2 "[''#x'']" "[''a'', ''b'', ''c'', ''d'']"]
  by (simp add: pad_def)

subsection \<open>The code/prose detector\<close>

lemma py_get_set:
  assumes "py_get ls i = Inr l" and "py_set ls i v = Inr ls'"
  shows "\<exists>k<length ls. l = ls ! k \<and> ls' = ls[k := v]"
proof (cases "norm_index ls i")
  case None
  with assms show ?thesis by (simp add: py_get_def)
next
  case (Some k)
  then have "k < length ls"
    by (auto simp: norm_index_def split: if_splits)
  with Some assms show ?thesis by (auto simp: py_get_def py_set_def)
qed

lemma mark_cases:
  assumes "mark ck b ls = Inr (ck', ls')"
  shows "(c_inCodeBlock ck \<and> \<not> b \<longrightarrow>
            (\<exists>k<length ls. ls' = ls[k := ls ! k @ linesep @ ''# @endcode'' @ linesep]) \<and>
            \<not> c_inCodeBlock ck') \<and>
         (c_inCodeBlock ck \<and> b \<longrightarrow> ls' = ls \<and> c_inCodeBlock ck') \<and>
         (\<not> c_inCodeBlock ck \<and> b \<longrightarrow>
            (\<exists>k<length ls. ls' = ls[k := ls ! k @ linesep @ ''# @code'' @ linesep]) \<and>
            c_inCodeBlock ck') \<and>
         (\<not> c_inCodeBlock ck \<and> \<not> b \<longrightarrow> ls' = ls \<and> \<not> c_inCodeBlock ck')"
proof (cases "py_get ls (currentLineNum ck)")
  case (Inl e)
  with assms show ?thesis by (auto simp: mark_def split: if_splits)
next
  case (Inr l)
  show ?thesis
  proof (cases "c_inCodeBlock ck = b")
    case True
    with assms show ?thesis by (auto simp: mark_def split: if_splits)
  next
    case False
    show ?thesis
    proof (cases b)
      case True
      with False Inr assms
      obtain x where x: "py_set ls (currentLineNum ck) (l @ linesep @ ''# @code'' @ linesep) = Inr x"
        and r: "ck' = ck\<lparr>suspended_at := AtTop, c_inCodeBlock := True\<rparr>" "ls' = x"
        by (auto simp: mark_def split: sum.splits)
      from py_get_set [OF Inr x] r True False show ?thesis by auto
    next
      case nb: False
      with False Inr assms
      obtain x where x: "py_set ls (currentLineNum ck) (l @ linesep @ ''# @endcode'' @ linesep) = Inr x"
        and r: "ck' = ck\<lparr>suspended_at := AtTop, c_inCodeBlock := False\<rparr>" "ls' = x"
        by (auto simp: mark_def split: sum.splits)
      from py_get_set [OF Inr x] r nb False show ?thesis by auto
    qed
  qed
qed

lemma classify_False:
  "classify cc ck ls = LineOfCode False \<Longrightarrow>
     cc (testLine ck) = RaisesSyntaxError \<or> cc (testLine ck) = RaisesRuntimeError"
  by (auto simp: classify_def split: if_splits compile_result.splits sum.splits)

lemma resume_inCode: "c_inCodeBlock (fst (checker_resume ck line n)) = c_inCodeBlock ck"
  by (auto simp: checker_resume_def split: suspended.splits)

text \<open>
  Claim C8. One \<open>send\<close> to the code/prose detector appends the close marker
  \<open># @endcode\<close> to a pending line exactly when the detector was inside a code block and
  \<open>lineOfCode\<close> ended as \<open>False\<close>; while \<open>lineOfCode\<close> is \<open>None\<close> nothing is written and
  the block stays open; and \<open>lineOfCode\<close> is \<open>False\<close> only after \<open>compile_command\<close> raised
  \<open>SyntaxError\<close> or \<open>RuntimeError\<close> on the text under test.
\<close>

theorem endcode_only_when_not_code:
  assumes "checker_send cc ck line ls lineNum = Inr (ck', ls')"
  shows "(lineOfCode cc ck line ls lineNum = None \<longrightarrow>
            ls' = ls \<and> c_inCodeBlock ck' = c_inCodeBlock ck) \<and>
         (c_inCodeBlock ck \<and> lineOfCode cc ck line ls lineNum = Some False \<longrightarrow>
            (\<exists>k<length ls. ls' = ls[k := ls ! k @ linesep @ ''# @endcode'' @ linesep]) \<and>
            \<not> c_inCodeBlock ck') \<and>
         (c_inCodeBlock ck \<and> lineOfCode cc ck line ls lineNum \<noteq> Some False \<longrightarrow>
            ls' = ls \<and> c_inCodeBlock ck') \<and>
         (\<not> c_inCodeBlock ck \<longrightarrow>
            ls' = ls \<or> (\<exists>k<length ls. ls' = ls[k := ls ! k @ linesep @ ''# @code'' @ linesep])) \<and>
         (lineOfCode cc ck line ls lineNum = Some False \<longrightarrow>
            cc (testLine (fst (checker_resume ck line lineNum))) = RaisesSyntaxError \<or>
            cc (testLine (fst (checker_resume ck line lineNum))) = RaisesRuntimeError)"
proof (cases "checker_resume ck line lineNum")
  case (Pair ck1 decided)
  have ic: "c_inCodeBlock ck1 = c_inCodeBlock ck"
    using resume_inCode [of ck line lineNum] Pair by simp
  show ?thesis
  proof (cases decided)
    case (Some b)
    with Pair assms have m: "mark ck1 b ls = Inr (ck', ls')"
      by (simp add: checker_send_def)
    have b: "b" using Pair Some
      by (auto simp: checker_resume_def split: suspended.splits if_splits)
    have l: "lineOfCode cc ck line ls lineNum = Some True"
      using Pair Some b by (simp add: lineOfCode_def)
    show ?thesis using mark_cases [OF m] ic b l by auto
  next
    case None
    show ?thesis
    proof (cases "classify cc ck1 ls")
      case (NeedLine y)
      with Pair None assms have "ck' = ck1\<lparr>suspended_at := y\<rparr>" "ls' = ls"
        by (simp_all add: checker_send_def)
      moreover have "lineOfCode cc ck line ls lineNum = None"
        using Pair None NeedLine by (simp add: lineOfCode_def)
      ultimately show ?thesis using ic by simp
    next
      case (LineOfCode b)
      with Pair None assms
      have m: "mark (ck1\<lparr>currentLineNum := lineNum - testLineNum ck1\<rparr>) b ls = Inr (ck', ls')"
        by (simp add: checker_send_def)
      have l: "lineOfCode cc ck line ls lineNum = Some b"
        using Pair None LineOfCode by (simp add: lineOfCode_def)
      have f: "\<not> b \<Longrightarrow> cc (testLine ck1) = RaisesSyntaxError \<or> cc (testLine ck1) = RaisesRuntimeError"
        using classify_False [of cc ck1 ls] LineOfCode by simp
      show ?thesis using mark_cases [OF m] ic l f Pair by auto
    qed
  qed
qed

theorem endcode_only_when_not_code_witness:
  "\<not> c_inCodeBlock (fst (projr (checker_send (\<lambda>s. RaisesSyntaxError) (checkIfCode True)
                                   ''x = = 1'' [''#a'', ''#b''] 2))) \<and>
   snd (projr (checker_send (\<lambda>s. RaisesSyntaxError) (checkIfCode True)
                 ''x = = 1'' [''#a'', ''#b''] 2)) = [''#a'', ''#b\<newline># @endcode\<newline>'']"
proof -
  have h: "checker_send (\<lambda>s. RaisesSyntaxError) (checkIfCode True) ''x = = 1'' [''#a'', ''#b''] 2
             = Inr (checkIfCode True\<lparr>testLine := ''x = = 1'', currentLineNum := 1,
                                      c_inCodeBlock := False\<rparr>,
                    [''#a'', ''#b\<newline># @endcode\<newline>''])"
    by code_simp
  have l: "lineOfCode (\<lambda>s. RaisesSyntaxError) (checkIfCode True) ''x = = 1'' [''#a'', ''#b''] 2
             = Some False"
    by code_simp
  have c: "c_inCodeBlock (checkIfCode True)"
    by (simp add: checkIfCode_def)
  from endcode_only_when_not_code [OF h] l c
  have "\<not> c_inCodeBlock (checkIfCode True\<lparr>testLine := ''x = = 1'', currentLineNum := 1,
                                            c_inCodeBlock := False\<rparr>)"
    by blast
  with h show ?thesis by simp
qed

subsection \<open>Blocks that the rewriter only comments\<close>

lemma and_then_simps [simp]:
  "and_then (Inl e) f = Inl e" "and_then (Inr x) f = f x"
  by (simp_all add: and_then_def)

lemma py_get_last: "xs \<noteq> [] \<Longrightarrow> py_get xs (-1) = Inr (last xs)"
  by (cases xs rule: rev_cases) (simp_all add: py_get_def norm_index_def)

lemma py_set_last: "xs \<noteq> [] \<Longrightarrow> py_set xs (-1) v = Inr (butlast xs @ [v])"
  by (cases xs rule: rev_cases) (simp_all add: py_set_def norm_index_def)

lemma py_get_last_empty: "py_get [] (-1) = Inl IndexError"
  by (simp add: py_get_def norm_index_def)

lemma single_line_tags_plain:
  "list_all (\<lambda>tag. re_search IGNORECASE (snd tag) (snd x) = None) tags \<Longrightarrow>
   single_line_tags lineNum tags x = Inr x"
  by (induction tags) (simp_all add: single_line_tag_def)

lemma flush_idle: "\<not> timeToSend st \<Longrightarrow> flush lineNum st = Inr st"
  by (simp add: flush_def)

lemma chain_plain:
  assumes "plain_line line" and "prefix st = []" and "\<not> inCodeBlock st"
  shows "returns_heading opts cc lineNum st line = Inr (Proceed st line)"
  using assms
  by (simp add: plain_line_def returns_heading_def args_heading_def args_line_def
        raises_heading_def list_line_def examples_heading_def section_heading_def)

lemma send_plain:
  assumes "autobrief opts \<longrightarrow> plain_line line \<and> prefix st = [] \<and> \<not> inCodeBlock st \<and> \<not> inSection st"
    and "\<not> timeToSend st"
  shows "alterDocstring_send opts cc tail st (int i) (Some line) =
           Inr (st\<lparr>firstLineNum := (if firstLineNum st < 0 then int i else firstLineNum st),
                   lines := lines st @ [commented tail (length (docLines st)) i line]\<rparr>)"
proof (cases "autobrief opts")
  case False
  with assms show ?thesis
    by (simp add: alterDocstring_send_def flush_def append_line_def commented_def)
next
  case True
  let ?st = "st\<lparr>firstLineNum := (if firstLineNum st < 0 then int i else firstLineNum st)\<rparr>"
  have t: "single_line_tags (int i) singleLineREs (?st, line) = Inr (?st, line)"
    using True assms by (intro single_line_tags_plain) (simp add: plain_line_def)
  have s: "section_continuation opts ?st line = Inr ?st"
    using True assms by (simp add: section_continuation_def)
  have c: "returns_heading opts cc (int i) ?st line = Inr (Proceed ?st line)"
    using True assms by (intro chain_plain) simp_all
  show ?thesis
    using True assms t s c
    by (simp add: alterDocstring_send_def flush_def append_line_def commented_def)
qed

lemma feed_plain:
  assumes "autobrief opts \<longrightarrow> list_all plain_line dls"
    and "autobrief opts \<longrightarrow> prefix st = [] \<and> \<not> inCodeBlock st \<and> \<not> inSection st"
    and "\<not> timeToSend st" and "docLines st = dls" and "i \<le> length dls"
  shows "\<exists>st'. feed opts cc tail i st = Some (Inr st') \<and>
           lines st' = lines st @ map (\<lambda>j. commented tail (length dls) j (dls ! j)) [i..<length dls] \<and>
           docLines st' = dls \<and> \<not> timeToSend st' \<and> inCodeBlock st' = inCodeBlock st \<and>
           firstLineNum st' = (if firstLineNum st < 0 \<and> i < length dls then int i
                               else firstLineNum st)"
  using assms(2-)
proof (induction "length dls - i" arbitrary: i st)
  case 0
  then have "i = length dls" by simp
  with 0 show ?case by (subst feed.simps) simp
next
  case (Suc k)
  then have i: "i < length dls" by simp
  let ?st = "st\<lparr>firstLineNum := (if firstLineNum st < 0 then int i else firstLineNum st),
                  lines := lines st @ [commented tail (length dls) i (dls ! i)]\<rparr>"
  have pl: "autobrief opts \<longrightarrow> plain_line (dls ! i)"
    using assms(1) i by (auto simp: list_all_length)
  have step: "alterDocstring_send opts cc tail st (int i) (Some (docLines st ! i)) = Inr ?st"
    using send_plain [of opts "dls ! i" st cc tail i] pl Suc.prems by simp
  have k: "k = length dls - Suc i" using Suc.hyps(2) by simp
  have "\<exists>st'. feed opts cc tail (Suc i) ?st = Some (Inr st') \<and>
           lines st' = lines ?st @ map (\<lambda>j. commented tail (length dls) j (dls ! j)) [Suc i..<length dls] \<and>
           docLines st' = dls \<and> \<not> timeToSend st' \<and> inCodeBlock st' = inCodeBlock ?st \<and>
           firstLineNum st' = (if firstLineNum ?st < 0 \<and> Suc i < length dls then int (Suc i)
                               else firstLineNum ?st)"
    by (rule Suc.hyps(1) [OF k]) (use Suc.prems i in simp_all)
  then obtain st' where f: "feed opts cc tail (Suc i) ?st = Some (Inr st')"
    and l: "lines st' = lines ?st @ map (\<lambda>j. commented tail (length dls) j (dls ! j)) [Suc i..<length dls]"
    and r: "docLines st' = dls" "\<not> timeToSend st'" "inCodeBlock st' = inCodeBlock ?st"
    and fl: "firstLineNum st' = (if firstLineNum ?st < 0 \<and> Suc i < length dls then int (Suc i)
                               else firstLineNum ?st)"
    by blast
  have "feed opts cc tail i st = feed opts cc tail (Suc i) ?st"
    using i Suc.prems step by (subst feed.simps) simp
  moreover have "[i..<length dls] = i # [Suc i..<length dls]"
    using i by (simp add: upt_conv_Cons)
  ultimately show ?case using f l r fl i
    by (intro exI [of _ st']) simp
qed

lemma convert_plain:
  assumes "autobrief opts \<longrightarrow> list_all plain_line dls" and "dls \<noteq> []"
  shows "convert opts cc tail dls =
           Some (Inr (map (\<lambda>j. commented tail (length dls) j (dls ! j)) [0..<length dls]))"
proof -
  let ?out = "map (\<lambda>j. commented tail (length dls) j (dls ! j)) [0..<length dls]"
  obtain st' where f: "feed opts cc tail 0 (alterDocstring dls) = Some (Inr st')"
    and l: "lines st' = ?out"
    and r: "docLines st' = dls" "\<not> timeToSend st'" "\<not> inCodeBlock st'"
    and fl: "firstLineNum st' = 0"
    using feed_plain [OF assms(1), of "alterDocstring dls" 0 cc tail] assms(2)
    by (auto simp: alterDocstring_def)
  have n: "?out \<noteq> []" using assms(2) by simp
  have e: "end_code_on_last (st'\<lparr>firstLineNum := 0, timeToSend := True\<rparr>)
             = Inr (st'\<lparr>firstLineNum := 0, timeToSend := True\<rparr>)"
    using l n r
    by (simp add: end_code_on_last_def py_get_last py_set_last endCodeIfNeeded_def)
  have w: "writeDocstring dls 0 (int (length dls) - 1) ?out = ?out"
    by (simp add: writeDocstring_def py_slice_assign_def slice_bound_def pad_def)
  have "alterDocstring_send opts cc tail st' (int (length (docLines st')) - 1) None
          = Inr (st'\<lparr>firstLineNum := -1, timeToSend := False, lines := [], docLines := ?out\<rparr>)"
    using e w l r fl by (simp add: alterDocstring_send_def flush_def)
  with f show ?thesis by (simp add: convert_def)
qed

lemma replace_nonempty_absent:
  "c \<in> set old \<Longrightarrow> c \<notin> set s \<Longrightarrow> replace_nonempty 0 old new s = s"
proof (induction s)
  case Nil
  then show ?case by simp
next
  case (Cons x xs)
  have "\<not> startswith old (x # xs)"
  proof
    assume "startswith old (x # xs)"
    then have "set old \<subseteq> set (x # xs)"
      unfolding startswith_def by (metis set_take_subset)
    with Cons.prems show False by auto
  qed
  with Cons show ?case by simp
qed

lemma py_replace_absent: "c \<in> set old \<Longrightarrow> c \<notin> set s \<Longrightarrow> py_replace old new s = s"
  by (auto simp: py_replace_def replace_nonempty_absent)

lemma py_replace_head:
  "old \<noteq> [] \<Longrightarrow> hd old \<noteq> c \<Longrightarrow> \<exists>t. py_replace old new (c # s) = c # t"
  by (cases old) (auto simp: py_replace_def startswith_def)

lemma rstrip_split: "\<exists>w. l = rstrip l @ w"
proof -
  have "rev l = takeWhile isspace (rev l) @ dropWhile isspace (rev l)" by simp
  then have "l = rev (dropWhile isspace (rev l)) @ rev (takeWhile isspace (rev l))"
    by (metis rev_append rev_rev_ident)
  then show ?thesis unfolding rstrip_def by blast
qed

lemma rstrip_no_newline:
  assumes "single_line l"
  shows "CHR 0x0A \<notin> set (rstrip l)"
proof (cases l rule: rev_cases)
  case Nil
  then show ?thesis by (simp add: rstrip_def)
next
  case (snoc xs x)
  with assms have xs: "CHR 0x0A \<notin> set xs" by (simp add: single_line_def)
  show ?thesis
  proof (cases "isspace x")
    case True
    then have "set (rstrip l) \<subseteq> set xs"
      using snoc by (auto simp: rstrip_def dest: set_dropWhileD)
    with xs show ?thesis by auto
  next
    case False
    then have "x \<noteq> CHR 0x0A" by (auto simp: isspace_def)
    moreover have "rstrip l = l" using False snoc by (simp add: rstrip_def)
    ultimately show ?thesis using xs snoc by simp
  qed
qed

lemma commented_starts: "startswith ''#'' (commented tail n i l)"
proof -
  obtain s where "commented tail n i l = py_replace ('' '' @ linesep) linesep (CHR ''#'' # s)"
    by (cases "int i = 0") (simp_all add: commented_def)
  moreover obtain t where "py_replace ('' '' @ linesep) linesep (CHR ''#'' # s) = CHR ''#'' # t"
    using py_replace_head [of "'' '' @ linesep" "CHR ''#''" linesep s] by auto
  ultimately show ?thesis by (simp add: startswith_def)
qed

lemma commented_plain:
  assumes "single_line l"
  shows "commented [] n i l = (if i = 0 then ''##'' else ''#'') @ rstrip l"
proof -
  have "CHR 0x0A \<notin> set ((if int i = 0 then ''#'' else []) @ ''#'' @ rstrip l)"
    using rstrip_no_newline [OF assms] by simp
  then show ?thesis
    by (simp add: commented_def py_replace_absent [of "CHR 0x0A"] linesep_def)
qed

text \<open>
  Claim C2, as stated, fails: the walker passes a tail for a protected function, the
  rewriter appends it to the last line behind a line break, and the rewritten block of
  two lines holds four lines of text when the buffer is written out.
\<close>

theorem tail_adds_lines:
  "function_tail \<lparr>autobrief = False, autocode = False, topLevelNamespace = [], tablength = 4,
                   fullPathNamespace = ''sample''\<rparr> ''_f'' [(''_f'', KFunction)]
     = linesep @ ''# @protected'' \<and>
   convert \<lparr>autobrief = False, autocode = False, topLevelNamespace = [], tablength = 4,
             fullPathNamespace = ''sample''\<rparr>
     (\<lambda>s. RaisesSyntaxError) (linesep @ ''# @protected'') [''Doc.\<newline>'', ''\<newline>'']
     = Some (Inr [''##Doc.'', ''#\<newline>#\<newline># @protected'']) \<and>
   getLines [''##Doc.'', ''#\<newline>#\<newline># @protected''] = ''##Doc.\<newline>#\<newline>#\<newline># @protected'' \<and>
   length (filter (\<lambda>c. c = CHR 0x0A) (getLines [''##Doc.'', ''#\<newline>#\<newline># @protected''])) = 3"
  by code_simp

text \<open>
  Claim C2, amended. For every non-empty documentation block of single lines, with
  autobrief disabled and no tail passed by the walker, the rewriter ends without an
  error, and the block the writer leaves in \<open>self.docLines\<close> has as many lines as the
  input block: as many entries, each one line of text that begins with the comment
  marker \<open>#\<close>. This holds whatever the lines contain.
\<close>

theorem plain_block_keeps_line_count:
  assumes "\<not> autobrief opts" and "dls \<noteq> []" and "list_all single_line dls"
  shows "\<exists>out. convert opts compile_command [] dls = Some (Inr out) \<and>
               length out = length dls \<and>
               list_all (\<lambda>l. startswith ''#'' l \<and> CHR 0x0A \<notin> set l) out"
proof -
  let ?out = "map (\<lambda>j. commented [] (length dls) j (dls ! j)) [0..<length dls]"
  have c: "convert opts compile_command [] dls = Some (Inr ?out)"
    using convert_plain [of opts dls compile_command "[]"] assms(1,2) by simp
  have "startswith ''#'' (?out ! j) \<and> CHR 0x0A \<notin> set (?out ! j)" if j: "j < length dls" for j
  proof -
    have s: "single_line (dls ! j)" using assms(3) j by (simp add: list_all_length)
    have "CHR 0x0A \<notin> set (commented [] (length dls) j (dls ! j))"
      using rstrip_no_newline [OF s] by (simp add: commented_plain [OF s])
    then show ?thesis using j by (simp add: commented_starts)
  qed
  then have "list_all (\<lambda>l. startswith ''#'' l \<and> CHR 0x0A \<notin> set l) ?out"
    by (simp add: list_all_length)
  with c show ?thesis by simp
qed

lemma lstrip_hash:
  assumes "\<not> startswith ''#'' l"
  shows "lstrip_chars ''#'' ((if (j::nat) = 0 then ''##'' else ''#'') @ rstrip l) = rstrip l"
proof -
  obtain w where w: "l = rstrip l @ w" using rstrip_split by blast
  have "\<not> startswith ''#'' (rstrip l)"
  proof
    assume "startswith ''#'' (rstrip l)"
    then obtain t where "rstrip l = CHR ''#'' # t"
      by (cases "rstrip l") (simp_all add: startswith_def)
    with w have "l = CHR ''#'' # t @ w" by simp
    with assms show False by (metis append_Cons append_Nil length_Cons list.size(3) startswith_def take_Suc_Cons take0)
  qed
  then show ?thesis
    by (cases "rstrip l") (simp_all add: lstrip_chars_def startswith_def)
qed

theorem plain_block_keeps_line_count_witness:
  "\<exists>out. convert \<lparr>autobrief = False, autocode = True, topLevelNamespace = [], tablength = 4,
                     fullPathNamespace = ''sample''\<rparr>
                  (\<lambda>s. RaisesSyntaxError) []
                  [''Args:\<newline>'', ''    x (int): the value \<newline>'', ''  \<newline>''] = Some (Inr out) \<and>
         length out = 3 \<and> list_all (\<lambda>l. startswith ''#'' l \<and> CHR 0x0A \<notin> set l) out"
proof -
  have s: "list_all single_line [''Args:\<newline>'', ''    x (int): the value \<newline>'', ''  \<newline>'']"
    by (simp add: single_line_def)
  from plain_block_keeps_line_count
          [of "\<lparr>autobrief = False, autocode = True, topLevelNamespace = [], tablength = 4,
                fullPathNamespace = ''sample''\<rparr>"
              "[''Args:\<newline>'', ''    x (int): the value \<newline>'', ''  \<newline>'']"
              "\<lambda>s. RaisesSyntaxError"] s
  show ?thesis by (simp add: numeral_3_eq_3)
qed

text \<open>
  Claim C7, as stated, fails in two ways. A line that begins with the comment marker
  loses it when the markers are stripped: \<open>#x\<close> comes back as \<open>x\<close>. And a tail passed by
  the walker stays in the last line after stripping, where the original block had none.
\<close>

theorem round_trip_fails:
  "convert \<lparr>autobrief = False, autocode = False, topLevelNamespace = [], tablength = 4,
             fullPathNamespace = ''sample''\<rparr>
     (\<lambda>s. RaisesSyntaxError) [] [''Doc.\<newline>'', ''#x\<newline>'']
     = Some (Inr [''##Doc.'', ''##x'']) \<and>
   map (lstrip_chars ''#'') [''##Doc.'', ''##x''] = [''Doc.'', ''x''] \<and>
   map rstrip [''Doc.\<newline>'', ''#x\<newline>''] = [''Doc.'', ''#x''] \<and>
   convert \<lparr>autobrief = False, autocode = False, topLevelNamespace = [], tablength = 4,
             fullPathNamespace = ''sample''\<rparr>
     (\<lambda>s. RaisesSyntaxError) ''@namespace sample.f'' [''Doc.\<newline>'']
     = Some (Inr [''##Doc.\<newline># @namespace sample.f'']) \<and>
   map (lstrip_chars ''#'') [''##Doc.\<newline># @namespace sample.f'']
     = [''Doc.\<newline># @namespace sample.f'']"
  by code_simp

text \<open>
  Claim C7, amended. For every non-empty documentation block of single lines that is free
  of special markers (autobrief is disabled, or no line matches a pattern the rewriter
  looks for), rewritten with no tail, the output line is the input line without its
  trailing whitespace behind the comment marker (two markers on the first line); so
  stripping the leading comment markers gives back the block up to trailing
  whitespace, provided no line began with a comment marker itself.
\<close>

theorem plain_block_round_trip:
  assumes "autobrief opts \<longrightarrow> list_all plain_line dls"
    and "dls \<noteq> []" and "list_all single_line dls"
  shows "\<exists>out. convert opts compile_command [] dls = Some (Inr out) \<and>
               out = map (\<lambda>j. (if j = 0 then ''##'' else ''#'') @ rstrip (dls ! j)) [0..<length dls] \<and>
               (list_all (\<lambda>l. \<not> startswith ''#'' l) dls \<longrightarrow>
                  map (lstrip_chars ''#'') out = map rstrip dls)"
proof -
  let ?out = "map (\<lambda>j. (if j = 0 then ''##'' else ''#'') @ rstrip (dls ! j)) [0..<length dls]"
  have "commented [] (length dls) j (dls ! j) = (if j = 0 then ''##'' else ''#'') @ rstrip (dls ! j)"
    if "j < length dls" for j
    using that assms(3) commented_plain [of "dls ! j" "length dls" j]
    by (simp add: list_all_length)
  then have "map (\<lambda>j. commented [] (length dls) j (dls ! j)) [0..<length dls] = ?out"
    by (intro map_cong) simp_all
  then have c: "convert opts compile_command [] dls = Some (Inr ?out)"
    using convert_plain [OF assms(1,2), of compile_command "[]"] by simp
  have "map (lstrip_chars ''#'') ?out = map rstrip dls"
    if h: "list_all (\<lambda>l. \<not> startswith ''#'' l) dls"
  proof (rule nth_equalityI)
    show "length (map (lstrip_chars ''#'') ?out) = length (map rstrip dls)" by simp
  next
    fix j assume "j < length (map (lstrip_chars ''#'') ?out)"
    then have j: "j < length dls" by simp
    then have "\<not> startswith ''#'' (dls ! j)" using h by (simp add: list_all_length)
    then show "map (lstrip_chars ''#'') ?out ! j = map rstrip dls ! j"
      using j lstrip_hash [of "dls ! j" j] by simp
  qed
  with c show ?thesis by blast
qed

theorem plain_block_round_trip_witness:
  "\<exists>out. convert \<lparr>autobrief = True, autocode = True, topLevelNamespace = [], tablength = 4,
                     fullPathNamespace = ''sample''\<rparr>
                  (\<lambda>s. RaisesSyntaxError) []
                  [''Hello world.\<newline>'', ''\<newline>'', ''  More text. \<newline>''] = Some (Inr out) \<and>
         out = [''##Hello world.'', ''#'', ''#  More text.''] \<and>
         map (lstrip_chars ''#'') out = map rstrip [''Hello world.\<newline>'', ''\<newline>'', ''  More text. \<newline>'']"
proof -
  have p: "list_all plain_line [''Hello world.\<newline>'', ''\<newline>'', ''  More text. \<newline>'']"
    by code_simp
  have s: "list_all single_line [''Hello world.\<newline>'', ''\<newline>'', ''  More text. \<newline>'']"
    by (simp add: single_line_def)
  have h: "list_all (\<lambda>l. \<not> startswith ''#'' l)
             [''Hello world.\<newline>'', ''\<newline>'', ''  More text. \<newline>'']"
    by (simp add: startswith_def)
  have r: "rstrip ''Hello world.\<newline>'' = ''Hello world.''" "rstrip ''\<newline>'' = []"
          "rstrip ''  More text. \<newline>'' = ''  More text.''"
    by code_simp+
  have u: "[0..<3] = [0, Suc 0, Suc (Suc 0)]"
    by (simp add: upt_rec)
  from plain_block_round_trip
         [of "\<lparr>autobrief = True, autocode = True, topLevelNamespace = [], tablength = 4,
               fullPathNamespace = ''sample''\<rparr>"
             "[''Hello world.\<newline>'', ''\<newline>'', ''  More text. \<newline>'']"
             "\<lambda>s. RaisesSyntaxError"]
       p s h
  show ?thesis
    by (simp add: u r)
qed

subsection \<open>Code markers\<close>

text \<open>
  Claim C1 (the code does not keep it). With autobrief and autocode enabled, the block
  \<open>Returns:\<close> / \<open>    >>> foo()\<close> / blank line is rewritten with an open marker
  \<open># @code\<close> and no \<open># @endcode\<close>: the detector that found the code keeps its own
  \<open>inCodeBlock\<close>, so the rewriter's \<open>_endCodeIfNeeded\<close> sees no open block at the flush.
  The result is the same whatever \<open>compile_command\<close> answers.
\<close>

theorem code_marker_left_open:
  "\<exists>out. convert \<lparr>autobrief = True, autocode = True, topLevelNamespace = [], tablength = 4,
                     fullPathNamespace = ''sample''\<rparr>
                  compile_command []
                  [''Returns:\<newline>'', ''    >>> foo()\<newline>'', ''\<newline>''] = Some (Inr out) \<and>
         out = [''## @return\<newline># @code\<newline>'', ''#    >>> foo()'', ''#''] \<and>
         list_ex (contains ''# @code'') out \<and> \<not> list_ex (contains ''@endcode'') out"
proof -
  have "convert \<lparr>autobrief = True, autocode = True, topLevelNamespace = [], tablength = 4,
                 fullPathNamespace = ''sample''\<rparr>
          compile_command [] [''Returns:\<newline>'', ''    >>> foo()\<newline>'', ''\<newline>'']
        = Some (Inr [''## @return\<newline># @code\<newline>'', ''#    >>> foo()'', ''#''])"
    by code_simp
  moreover have "list_ex (contains ''# @code'')
                   [''## @return\<newline># @code\<newline>'', ''#    >>> foo()'', ''#'']"
    by code_simp
  moreover have "\<not> list_ex (contains ''@endcode'')
                   [''## @return\<newline># @code\<newline>'', ''#    >>> foo()'', ''#'']"
    by code_simp
  ultimately show ?thesis by blast
qed

subsection \<open>An arguments section\<close>

text \<open>
  Claim C5, as stated, fails: when \<open>Args:\<close> is the first line of the block the rewriter
  reads \<open>lines[-1]\<close> of the empty list of pending lines and ends with \<open>IndexError\<close>.
\<close>

theorem args_first_line_fails:
  "convert \<lparr>autobrief = True, autocode = False, topLevelNamespace = [], tablength = 4,
            fullPathNamespace = ''sample''\<rparr>
     (\<lambda>s. RaisesSyntaxError) [] [''Args:\<newline>'', ''    x (int): the value\<newline>'']
   = Some (Inl IndexError)"
  by code_simp

text \<open>
  Claim C5, amended. After a first line (here a blank one), with autobrief enabled, the
  lines \<open>Args:\<close> and \<open>    x (int): the value\<close> become two lines: an empty comment line for
  the heading, and the entry \<open># @param<TAB><TAB>x<TAB>the value\<close> with the name and the
  description. The pattern does capture the type \<open>(int)\<close>, and the output leaves it out.
\<close>

theorem args_section_entry:
  "convert \<lparr>autobrief = True, autocode = False, topLevelNamespace = [], tablength = 4,
            fullPathNamespace = ''sample''\<rparr>
     (\<lambda>s. RaisesSyntaxError) [] [''\<newline>'', ''Args:\<newline>'', ''    x (int): the value\<newline>'']
   = Some (Inr [''##'', ''#'',
                ''# @param'' @ [CHR 0x09, CHR 0x09] @ ''x'' @ [CHR 0x09] @ ''the value'']) \<and>
   map_option (\<lambda>mo. (group mo 1, group mo 2, group mo 3))
     (re_match plain argsRE ''    x (int): the value\<newline>'')
   = Some (''x'', ''(int)'', ''the value'')"
  by code_simp

subsection \<open>A heading on the first line\<close>

text \<open>
  Claim C9, as stated, fails: a first line \<open>Raises:\<close> followed by two blanks matches the
  heading pattern for raises, and the pattern for a name with a description before it,
  so the rewriter never reads the pending lines and produces output.
\<close>

theorem raises_first_line_rewritten:
  "re_match IGNORECASE raisesStartRE (''Raises:  '' @ linesep) \<noteq> None \<and>
   convert \<lparr>autobrief = True, autocode = False, topLevelNamespace = [], tablength = 4,
            fullPathNamespace = ''sample''\<rparr>
     (\<lambda>s. RaisesSyntaxError) [] [''Raises:  '' @ linesep]
   = Some (Inr [''## '' @ [CHR 0x09] @ ''Raises''])"
  by code_simp

text \<open>The lemmas below find out how a line must begin for a heading pattern to match it.\<close>

lemma atom_Nil: "rest st = [] \<Longrightarrow> m fl (Atom c) k st = None"
  by simp

lemma atom_Cons:
  "rest st = x # xs \<Longrightarrow>
   m fl (Atom c) k st =
     (if cclass_match (ignorecase fl) c x then k (st\<lparr>prev := Some x, rest := xs\<rparr>) else None)"
  by simp

lemma rep_atom_Some:
  "rep n (m fl (Atom c)) cnt 0 None lastp k st = Some r \<Longrightarrow>
   \<exists>j p. j \<le> length (takeWhile (cclass_match (ignorecase fl) c) (rest st)) \<and>
         k (st\<lparr>prev := p, rest := drop j (rest st)\<rparr>) = Some r"
proof (induction n arbitrary: cnt lastp st)
  case 0
  then have "k (st\<lparr>prev := prev st, rest := drop 0 (rest st)\<rparr>) = Some r"
    by (simp del: m.simps)
  then show ?case by blast
next
  case (Suc n)
  have stay: ?case if "k st = Some r"
  proof -
    from that have "k (st\<lparr>prev := prev st, rest := drop 0 (rest st)\<rparr>) = Some r" by simp
    then show ?thesis by blast
  qed
  show ?case
  proof (cases "rest st")
    case Nil
    with Suc.prems have "k st = Some r"
      by (simp del: m.simps add: atom_Nil split: if_splits)
    then show ?thesis by (rule stay)
  next
    case (Cons x xs)
    let ?st = "st\<lparr>prev := Some x, rest := xs\<rparr>"
    show ?thesis
    proof (cases "lastp \<noteq> Some (length (rest st)) \<and> cclass_match (ignorecase fl) c x \<and>
                  rep n (m fl (Atom c)) (Suc cnt) 0 None (Some (length (rest st))) k ?st = Some r")
      case True
      then have t: "rep n (m fl (Atom c)) (Suc cnt) 0 None (Some (length (rest st))) k ?st = Some r"
        by blast
      from Suc.IH [OF t] obtain j p
        where j: "j \<le> length (takeWhile (cclass_match (ignorecase fl) c) xs)"
          and k: "k (st\<lparr>prev := p, rest := drop j xs\<rparr>) = Some r"
        by (auto simp del: m.simps)
      have "Suc j \<le> length (takeWhile (cclass_match (ignorecase fl) c) (rest st))"
        using j True Cons by simp
      moreover have "k (st\<lparr>prev := p, rest := drop (Suc j) (rest st)\<rparr>) = Some r"
        using k Cons by simp
      ultimately show ?thesis by blast
    next
      case False
      with Suc.prems Cons have "k st = Some r"
        by (auto simp del: m.simps simp add: atom_Cons split: if_splits option.splits)
      then show ?thesis by (rule stay)
    qed
  qed
qed

lemma star_atom_Some:
  "m fl (Rep 0 None (Atom c)) k st = Some r \<Longrightarrow>
   \<exists>j p. j \<le> length (takeWhile (cclass_match (ignorecase fl) c) (rest st)) \<and>
         k (st\<lparr>prev := p, rest := drop j (rest st)\<rparr>) = Some r"
  by (simp only: m.simps) (rule rep_atom_Some)

lemma drop_takeWhile_stop:
  assumes "j \<le> length (takeWhile P xs)" and "drop j xs = c # cs" and "\<not> P c"
  shows "drop j xs = dropWhile P xs"
proof (cases "j < length (takeWhile P xs)")
  case True
  then have "takeWhile P xs ! j \<in> set (takeWhile P xs)" by simp
  then have "P (takeWhile P xs ! j)" by (rule set_takeWhileD [THEN conjunct2])
  moreover have "takeWhile P xs ! j = xs ! j" using True by (rule takeWhile_nth)
  moreover have "xs ! j = c"
    using assms(2) by (metis Cons_nth_drop_Suc drop_all list.distinct(1) list.inject not_le)
  ultimately show ?thesis using assms(3) by simp
next
  case False
  with assms(1) have "j = length (takeWhile P xs)" by simp
  then show ?thesis by (simp add: dropWhile_eq_drop)
qed

lemma m_lit_Some:
  "m fl (lit s) k st = Some r \<Longrightarrow>
   length s \<le> length (rest st) \<and>
   (\<forall>i<length s. cclass_match (ignorecase fl) (CChar (s ! i)) (rest st ! i))"
proof (induction s arbitrary: st)
  case Nil
  then show ?case by simp
next
  case (Cons a s)
  from Cons.prems obtain x xs where r: "rest st = x # xs"
    and a: "cclass_match (ignorecase fl) (CChar a) x"
    and t: "m fl (lit s) k (st\<lparr>prev := Some x, rest := xs\<rparr>) = Some r"
    by (auto simp: lit_def split: list.splits if_splits)
  from Cons.IH [OF t] have "length s \<le> length xs"
    and "\<forall>i<length s. cclass_match (ignorecase fl) (CChar (s ! i)) (xs ! i)"
    by simp_all
  with r a show ?case by (auto simp: nth_Cons split: nat.splits)
qed

lemma m_opt_Some:
  "m fl (Rep 0 (Some 1) a) k st = Some r \<Longrightarrow> (\<exists>k'. m fl a k' st = Some r) \<or> k st = Some r"
  by (auto split: if_splits option.splits)

lemma m_alt_Some:
  "m fl (Alt a b) k st = Some r \<Longrightarrow> m fl a k st = Some r \<or> m fl b k st = Some r"
  by (auto split: option.splits)

lemma starts_lit: "starts fl [s] (lit s)"
  using m_lit_Some [of fl s]
  by (auto simp del: m.simps simp add: starts_def lit_prefix_def list_all_iff)

lemma starts_seq: "starts fl S a \<Longrightarrow> starts fl S (Seq a b)"
  unfolding starts_def by (simp only: m.simps(3)) blast

lemma starts_alt: "starts fl S a \<Longrightarrow> starts fl T b \<Longrightarrow> starts fl (S @ T) (Alt a b)"
  unfolding starts_def
proof (intro allI impI)
  fix k st r
  assume a: "\<forall>k st r. m fl a k st = Some r \<longrightarrow> list_ex (\<lambda>s. lit_prefix fl s (rest st)) S"
    and b: "\<forall>k st r. m fl b k st = Some r \<longrightarrow> list_ex (\<lambda>s. lit_prefix fl s (rest st)) T"
    and m: "m fl (Alt a b) k st = Some r"
  from m_alt_Some [OF m]
  show "list_ex (\<lambda>s. lit_prefix fl s (rest st)) (S @ T)"
  proof
    assume "m fl a k st = Some r"
    with a have "list_ex (\<lambda>s. lit_prefix fl s (rest st)) S" by blast
    then show ?thesis by (auto simp: list_ex_iff)
  next
    assume "m fl b k st = Some r"
    with b have "list_ex (\<lambda>s. lit_prefix fl s (rest st)) T" by blast
    then show ?thesis by (auto simp: list_ex_iff)
  qed
qed

lemma starts_group: "starts fl S a \<Longrightarrow> starts fl S (Group i a)"
  unfolding starts_def by (simp only: m.simps(6)) blast

lemma starts_opt_seq:
  assumes "starts fl S a" and "starts fl T b"
  shows "starts fl (S @ T) (Seq (Rep 0 (Some 1) a) b)"
  unfolding starts_def
proof (intro allI impI)
  fix k st r
  assume "m fl (Seq (Rep 0 (Some 1) a) b) k st = Some r"
  then have "m fl (Rep 0 (Some 1) a) (m fl b k) st = Some r" by (simp only: m.simps(3))
  from m_opt_Some [OF this]
  show "list_ex (\<lambda>s. lit_prefix fl s (rest st)) (S @ T)"
  proof
    assume "\<exists>k'. m fl a k' st = Some r"
    with assms(1) have "list_ex (\<lambda>s. lit_prefix fl s (rest st)) S"
      unfolding starts_def by blast
    then show ?thesis by (auto simp: list_ex_iff)
  next
    assume "m fl b k st = Some r"
    with assms(2) have "list_ex (\<lambda>s. lit_prefix fl s (rest st)) T"
      unfolding starts_def by blast
    then show ?thesis by (auto simp: list_ex_iff)
  qed
qed

lemma m_seq_fun: "m fl (Seq a b) k = m fl a (m fl b k)"
  by (rule ext) (simp only: m.simps(3))

lemma cclass_space: "cclass_match ic CSpace = isspace"
  by (rule ext) simp

lemma seqs_Cons: "seqs (a # rs) = Seq a (seqs rs)"
  by (simp add: seqs_def)

lemma space_lower: "isspace x \<Longrightarrow> lower_char x = x"
  by (auto simp: isspace_def lower_char_def in_range_def)

lemma lit_prefix_hd:
  assumes "lit_prefix fl s t" and "s \<noteq> []"
  shows "\<exists>c cs. t = c # cs \<and> cclass_match (ignorecase fl) (CChar (hd s)) c"
proof -
  from assms have l: "0 < length s" "length s \<le> length t" by (simp_all add: lit_prefix_def)
  then obtain c cs where t: "t = c # cs" by (cases t) auto
  from assms(1) l(1) have "cclass_match (ignorecase fl) (CChar (s ! 0)) (t ! 0)"
    unfolding lit_prefix_def list_all_iff by (simp del: cclass_match.simps)
  with t assms(2) show ?thesis by (simp add: hd_conv_nth del: cclass_match.simps)
qed

lemma ws_starts:
  assumes "starts fl S a"
    and "list_all (\<lambda>s. s \<noteq> [] \<and> \<not> isspace (lower_char (hd s)) \<and> \<not> isspace (hd s)) S"
    and "m fl (Seq (Rep 0 None (Atom CSpace)) (Seq a b)) k st = Some r"
  shows "list_ex (\<lambda>s. lit_prefix fl s (dropWhile isspace (rest st))) S"
proof -
  from assms(3) have "m fl (Rep 0 None (Atom CSpace)) (m fl a (m fl b k)) st = Some r"
    by (simp only: m_seq_fun)
  from star_atom_Some [OF this] obtain j p
    where j: "j \<le> length (takeWhile isspace (rest st))"
      and k: "m fl a (m fl b k) (st\<lparr>prev := p, rest := drop j (rest st)\<rparr>) = Some r"
    unfolding cclass_space by blast
  from assms(1) k obtain s where s: "s \<in> set S" and l: "lit_prefix fl s (drop j (rest st))"
    unfolding starts_def by (fastforce simp del: m.simps simp add: list_ex_iff)
  from s assms(2) have n: "s \<noteq> []" "\<not> isspace (lower_char (hd s))" "\<not> isspace (hd s)"
    by (auto simp: list_all_iff)
  from lit_prefix_hd [OF l n(1)] obtain c cs where d: "drop j (rest st) = c # cs"
    and c: "cclass_match (ignorecase fl) (CChar (hd s)) c"
    by blast
  have "\<not> isspace c"
  proof
    assume sp: "isspace c"
    then have "lower_char c = c" by (rule space_lower)
    with c sp n show False by (auto split: if_splits)
  qed
  from drop_takeWhile_stop [OF j d this] l s
  show ?thesis by (auto simp: list_ex_iff)
qed

lemma re_match_Some:
  "re_match fl r line = Some mo \<Longrightarrow>
   \<exists>st. m fl r Some \<lparr>prev = None, rest = line, groups = Map.empty\<rparr> = Some st"
  by (auto simp del: m.simps simp add: re_match_def match_at_def split: option.splits)

lemma m_bol_start: "prev st = None \<Longrightarrow> m fl Bol k st = k st"
  by simp

lemma anchored_head:
  assumes "re_match fl (Seq Bol (Seq (Rep 0 None (Atom CSpace)) (Seq a b))) line = Some mo"
    and "starts fl S a"
    and "list_all (\<lambda>s. s \<noteq> [] \<and> \<not> isspace (lower_char (hd s)) \<and> \<not> isspace (hd s)) S"
  shows "list_ex (\<lambda>s. lit_prefix fl s (dropWhile isspace line)) S"
proof -
  let ?st = "\<lparr>prev = None, rest = line, groups = Map.empty\<rparr>"
  from re_match_Some [OF assms(1)] obtain st
    where "m fl (Seq Bol (Seq (Rep 0 None (Atom CSpace)) (Seq a b))) Some ?st = Some st"
    by blast
  then have "m fl Bol (m fl (Seq (Rep 0 None (Atom CSpace)) (Seq a b)) Some) ?st = Some st"
    by (simp only: m.simps(3))
  then have "m fl (Seq (Rep 0 None (Atom CSpace)) (Seq a b)) Some ?st = Some st"
    by (subst (asm) m_bol_start) simp_all
  from ws_starts [OF assms(2,3) this] show ?thesis by simp
qed

lemma anchored_group_head:
  assumes "re_match fl (Seq Bol (Seq (Group i (Seq (Rep 0 None (Atom CSpace)) (Seq a b))) c)) line
             = Some mo"
    and "starts fl S a"
    and "list_all (\<lambda>s. s \<noteq> [] \<and> \<not> isspace (lower_char (hd s)) \<and> \<not> isspace (hd s)) S"
  shows "list_ex (\<lambda>s. lit_prefix fl s (dropWhile isspace line)) S"
proof -
  let ?st = "\<lparr>prev = None, rest = line, groups = Map.empty\<rparr>"
  let ?g = "Group i (Seq (Rep 0 None (Atom CSpace)) (Seq a b))"
  from re_match_Some [OF assms(1)] obtain st
    where "m fl (Seq Bol (Seq ?g c)) Some ?st = Some st"
    by blast
  then have "m fl Bol (m fl (Seq ?g c) Some) ?st = Some st"
    by (simp only: m.simps(3))
  then have "m fl (Seq ?g c) Some ?st = Some st"
    by (subst (asm) m_bol_start) simp_all
  then have "m fl ?g (m fl c Some) ?st = Some st"
    by (simp only: m.simps(3))
  then have "\<exists>k. m fl (Seq (Rep 0 None (Atom CSpace)) (Seq a b)) k ?st = Some st"
    by (simp only: m.simps(6)) blast
  then obtain k where "m fl (Seq (Rep 0 None (Atom CSpace)) (Seq a b)) k ?st = Some st"
    by blast
  from ws_starts [OF assms(2,3) this] show ?thesis by simp
qed

lemma lit_prefix_lower:
  assumes "lit_prefix IGNORECASE s t" and "n \<le> length s"
  shows "lower (take n t) = take n (lower s)"
proof (rule nth_equalityI)
  from assms show "length (lower (take n t)) = length (take n (lower s))"
    by (simp add: lit_prefix_def lower_def)
next
  fix i assume "i < length (lower (take n t))"
  then have i: "i < n" "i < length t" by (simp_all add: lower_def)
  with assms(2) have "i \<in> set [0..<length s]" by simp
  with assms(1) have "lower_char (t ! i) = lower_char (s ! i)"
    unfolding lit_prefix_def list_all_iff by (auto simp: IGNORECASE_def)
  with i assms(2) show "lower (take n t) ! i = take n (lower s) ! i"
    by (simp add: lower_def)
qed

lemma returnsStart_head:
  assumes "re_match IGNORECASE returnsStartRE line = Some mo"
  shows "lower (take 2 (dropWhile isspace line)) = ''re'' \<or>
         lower (take 2 (dropWhile isspace line)) = ''yi''"
proof -
  have r: "returnsStartRE =
             Seq Bol (Seq (Rep 0 None (Atom CSpace))
               (Seq (Alt (lit ''Return'') (lit ''Yield''))
                    (seqs [lit ''s:'', star ws, Eol])))"
    by (simp add: returnsStartRE_def seqs_def)
  have s: "starts IGNORECASE ([''Return''] @ [''Yield'']) (Alt (lit ''Return'') (lit ''Yield''))"
    by (intro starts_alt starts_lit)
  have w: "list_all (\<lambda>s. s \<noteq> [] \<and> \<not> isspace (lower_char (hd s)) \<and> \<not> isspace (hd s))
             ([''Return''] @ [''Yield''])"
    by code_simp
  have e: "take 2 (lower ''Return'') = ''re''" "take 2 (lower ''Yield'') = ''yi''"
    by code_simp+
  from anchored_head [OF assms [unfolded r] s w]
  have "lit_prefix IGNORECASE ''Return'' (dropWhile isspace line) \<or>
        lit_prefix IGNORECASE ''Yield'' (dropWhile isspace line)"
    by simp
  then show ?thesis
    using lit_prefix_lower [of "''Return''" "dropWhile isspace line" 2]
          lit_prefix_lower [of "''Yield''" "dropWhile isspace line" 2] e
    by auto
qed

lemma raisesStart_head:
  assumes "re_match IGNORECASE raisesStartRE line = Some mo"
  shows "lower (take 2 (dropWhile isspace line)) = ''ra'' \<or>
         lower (take 2 (dropWhile isspace line)) = ''ex'' \<or>
         lower (take 2 (dropWhile isspace line)) = ''se''"
proof -
  have r: "raisesStartRE =
             Seq Bol (Seq (Rep 0 None (Atom CSpace))
               (Seq (Group 1 (Alt (lit ''Raises'') (Alt (lit ''Exceptions'') (lit ''See Also''))))
                    (seqs [lit '':'', star ws, Eol])))"
    by (simp add: raisesStartRE_def seqs_def)
  have s: "starts IGNORECASE ([''Raises''] @ [''Exceptions''] @ [''See Also''])
             (Group 1 (Alt (lit ''Raises'') (Alt (lit ''Exceptions'') (lit ''See Also''))))"
    by (intro starts_group starts_alt starts_lit)
  have w: "list_all (\<lambda>s. s \<noteq> [] \<and> \<not> isspace (lower_char (hd s)) \<and> \<not> isspace (hd s))
             ([''Raises''] @ [''Exceptions''] @ [''See Also''])"
    by code_simp
  have e: "take 2 (lower ''Raises'') = ''ra''" "take 2 (lower ''Exceptions'') = ''ex''"
          "take 2 (lower ''See Also'') = ''se''"
    by code_simp+
  from anchored_head [OF assms [unfolded r] s w]
  have "lit_prefix IGNORECASE ''Raises'' (dropWhile isspace line) \<or>
        lit_prefix IGNORECASE ''Exceptions'' (dropWhile isspace line) \<or>
        lit_prefix IGNORECASE ''See Also'' (dropWhile isspace line)"
    by simp
  then show ?thesis
    using lit_prefix_lower [of "''Raises''" "dropWhile isspace line" 2]
          lit_prefix_lower [of "''Exceptions''" "dropWhile isspace line" 2]
          lit_prefix_lower [of "''See Also''" "dropWhile isspace line" 2] e
    by auto
qed

lemma argsStart_head:
  assumes "re_match IGNORECASE argsStartRE line = Some mo"
  shows "lower (take 1 (dropWhile isspace line)) = ''k'' \<or>
         lower (take 1 (dropWhile isspace line)) = ''a''"
proof -
  let ?kw = "Seq (lit ''Keyword'') (plus ws)"
  let ?rest = "seqs [lit ''rg'', opt (lit ''ument'')]"
  let ?alt = "Alt (Seq (opt ?kw) (Seq (Alt (lit ''A'') (lit ''Kwa'')) ?rest)) (lit ''Attribute'')"
  have r: "argsStartRE =
             Seq Bol (Seq (Group 1 (Seq (Rep 0 None (Atom CSpace))
                                      (Seq ?alt (seqs [opt (lit ''s''), star ws, lit '':'', star ws]))))
                          (seqs [Eol]))"
    by (simp add: argsStartRE_def seqs_def)
  have s: "starts IGNORECASE (([''Keyword''] @ [''A''] @ [''Kwa'']) @ [''Attribute'']) ?alt"
    by (intro starts_alt starts_opt_seq starts_seq starts_lit)
  have w: "list_all (\<lambda>s. s \<noteq> [] \<and> \<not> isspace (lower_char (hd s)) \<and> \<not> isspace (hd s))
             (([''Keyword''] @ [''A''] @ [''Kwa'']) @ [''Attribute''])"
    by code_simp
  have e: "take 1 (lower ''Keyword'') = ''k''" "take 1 (lower ''A'') = ''a''"
          "take 1 (lower ''Kwa'') = ''k''" "take 1 (lower ''Attribute'') = ''a''"
    by code_simp+
  from anchored_group_head [OF assms [unfolded r] s w]
  have "lit_prefix IGNORECASE ''Keyword'' (dropWhile isspace line) \<or>
        lit_prefix IGNORECASE ''A'' (dropWhile isspace line) \<or>
        lit_prefix IGNORECASE ''Kwa'' (dropWhile isspace line) \<or>
        lit_prefix IGNORECASE ''Attribute'' (dropWhile isspace line)"
    by simp
  then show ?thesis
    using lit_prefix_lower [of "''Keyword''" "dropWhile isspace line" 1]
          lit_prefix_lower [of "''A''" "dropWhile isspace line" 1]
          lit_prefix_lower [of "''Kwa''" "dropWhile isspace line" 1]
          lit_prefix_lower [of "''Attribute''" "dropWhile isspace line" 1] e
    by auto
qed

lemma lower_take_take: "lower (take 1 t) = take 1 (lower (take 2 t))"
  by (simp add: lower_def take_map [symmetric])

lemma args_not_returns:
  "re_match IGNORECASE argsStartRE line \<noteq> None \<Longrightarrow> re_match IGNORECASE returnsStartRE line = None"
proof (rule ccontr)
  assume a: "re_match IGNORECASE argsStartRE line \<noteq> None"
    and r: "re_match IGNORECASE returnsStartRE line \<noteq> None"
  from a obtain mo where "re_match IGNORECASE argsStartRE line = Some mo" by blast
  from argsStart_head [OF this]
  have 1: "take 1 (lower (take 2 (dropWhile isspace line))) = ''k'' \<or>
           take 1 (lower (take 2 (dropWhile isspace line))) = ''a''"
    by (simp only: lower_take_take)
  from r obtain mo' where "re_match IGNORECASE returnsStartRE line = Some mo'" by blast
  from returnsStart_head [OF this] 1 show False by auto
qed

lemma raises_not_returns:
  "re_match IGNORECASE raisesStartRE line \<noteq> None \<Longrightarrow> re_match IGNORECASE returnsStartRE line = None"
proof (rule ccontr)
  assume a: "re_match IGNORECASE raisesStartRE line \<noteq> None"
    and r: "re_match IGNORECASE returnsStartRE line \<noteq> None"
  from a obtain mo where "re_match IGNORECASE raisesStartRE line = Some mo" by blast
  note 1 = raisesStart_head [OF this]
  from r obtain mo' where "re_match IGNORECASE returnsStartRE line = Some mo'" by blast
  from returnsStart_head [OF this] 1 show False by auto
qed

lemma end_code_empty: "lines st = [] \<Longrightarrow> end_code_on_last st = Inl IndexError"
  by (simp add: end_code_on_last_def py_get_last_empty)

lemma single_line_tags_fail:
  assumes "lines (fst x) = []"
    and "list_ex (\<lambda>tag. re_search IGNORECASE (snd tag) (snd x) \<noteq> None) tags"
  shows "single_line_tags lineNum tags x = Inl IndexError"
  using assms(2)
proof (induction tags)
  case Nil
  then show ?case by simp
next
  case (Cons tag tags)
  show ?case
  proof (cases "re_search IGNORECASE (snd tag) (snd x)")
    case None
    with Cons show ?thesis by (simp add: single_line_tag_def)
  next
    case (Some mo)
    then show ?thesis
      using end_code_empty [OF assms(1)] by (simp add: single_line_tag_def)
  qed
qed

lemma heading_send_fails:
  assumes "autobrief opts" and "lines st = []" and "\<not> inSection st" and "\<not> inCodeBlock st"
    and "list_ex (\<lambda>tag. re_search IGNORECASE (snd tag) line \<noteq> None) singleLineREs \<or>
         re_match IGNORECASE argsStartRE line \<noteq> None \<or>
         (re_match IGNORECASE raisesStartRE line \<noteq> None \<and> re_match plain argsRE line = None)"
  shows "alterDocstring_send opts cc tail st lineNum (Some line) = Inl IndexError"
proof -
  let ?st = "st\<lparr>firstLineNum := (if firstLineNum st < 0 then lineNum else firstLineNum st)\<rparr>"
  show ?thesis
  proof (cases "list_ex (\<lambda>tag. re_search IGNORECASE (snd tag) line \<noteq> None) singleLineREs")
    case True
    have "single_line_tags lineNum singleLineREs (?st, line) = Inl IndexError"
      using True assms(2) by (intro single_line_tags_fail) simp_all
    with assms(1) show ?thesis by (simp add: alterDocstring_send_def)
  next
    case False
    then have "list_all (\<lambda>tag. re_search IGNORECASE (snd tag) line = None) singleLineREs"
      by (simp add: list_all_iff list_ex_iff)
    then have t: "single_line_tags lineNum singleLineREs (?st, line) = Inr (?st, line)"
      by (intro single_line_tags_plain) simp
    have s: "section_continuation opts ?st line = Inr ?st"
      using assms(3) by (simp add: section_continuation_def)
    have c: "returns_heading opts cc lineNum ?st line = Inl IndexError"
    proof (cases "re_match IGNORECASE argsStartRE line")
      case (Some mo)
      then have "re_match IGNORECASE returnsStartRE line = None"
        by (intro args_not_returns) simp
      with Some assms(2) show ?thesis
        by (simp add: returns_heading_def args_heading_def end_code_empty)
    next
      case None
      with False assms(5) obtain mo
        where r: "re_match IGNORECASE raisesStartRE line = Some mo"
          and a: "re_match plain argsRE line = None"
        by auto
      then have "re_match IGNORECASE returnsStartRE line = None"
        by (intro raises_not_returns) simp
      with None r a assms(2,4) show ?thesis
        by (simp add: returns_heading_def args_heading_def args_line_def raises_heading_def
              end_code_empty)
    qed
    from assms(1) t s c show ?thesis by (simp add: alterDocstring_send_def)
  qed
qed

text \<open>
  Claim C9, amended. With autobrief enabled, a documentation block whose first line
  matches a single-line tag pattern, or the heading pattern for arguments, or the heading
  pattern for raises without matching the pattern for a name with a description, makes
  the rewriter read \<open>lines[-1]\<close> while no line is pending and no batch has been sent:
  the run ends with \<open>IndexError\<close> and \<open>self.docLines\<close> is never written.
\<close>

theorem heading_on_first_line_fails:
  assumes "autobrief opts" and "dls \<noteq> []"
    and "list_ex (\<lambda>tag. re_search IGNORECASE (snd tag) (dls ! 0) \<noteq> None) singleLineREs \<or>
         re_match IGNORECASE argsStartRE (dls ! 0) \<noteq> None \<or>
         (re_match IGNORECASE raisesStartRE (dls ! 0) \<noteq> None \<and>
          re_match plain argsRE (dls ! 0) = None)"
  shows "convert opts compile_command tail dls = Some (Inl IndexError)"
proof -
  have "alterDocstring_send opts compile_command tail (alterDocstring dls) (int 0) (Some (dls ! 0))
          = Inl IndexError"
    using assms(1,3) by (intro heading_send_fails) (simp_all add: alterDocstring_def)
  then have "feed opts compile_command tail 0 (alterDocstring dls) = Some (Inl IndexError)"
    using assms(2) by (subst feed.simps) (simp add: alterDocstring_def)
  then show ?thesis by (simp add: convert_def)
qed

theorem heading_on_first_line_fails_witness:
  "convert \<lparr>autobrief = True, autocode = False, topLevelNamespace = [], tablength = 4,
            fullPathNamespace = ''sample''\<rparr>
     (\<lambda>s. RaisesSyntaxError) [] [''Raises:'' @ linesep, ''    ValueError: if wrong'' @ linesep]
   = Some (Inl IndexError) \<and>
   convert \<lparr>autobrief = True, autocode = False, topLevelNamespace = [], tablength = 4,
            fullPathNamespace = ''sample''\<rparr>
     (\<lambda>s. RaisesSyntaxError) [] [''Note: be careful'' @ linesep]
   = Some (Inl IndexError)"
proof -
  have r: "re_match IGNORECASE raisesStartRE (''Raises:'' @ linesep) \<noteq> None \<and>
           re_match plain argsRE (''Raises:'' @ linesep) = None"
    by code_simp
  have n: "list_ex (\<lambda>tag. re_search IGNORECASE (snd tag) (''Note: be careful'' @ linesep) \<noteq> None)
             singleLineREs"
    by code_simp
  from heading_on_first_line_fails
         [of "\<lparr>autobrief = True, autocode = False, topLevelNamespace = [], tablength = 4,
               fullPathNamespace = ''sample''\<rparr>"
             "[''Raises:'' @ linesep, ''    ValueError: if wrong'' @ linesep]"
             "\<lambda>s. RaisesSyntaxError" "[]"]
       heading_on_first_line_fails
         [of "\<lparr>autobrief = True, autocode = False, topLevelNamespace = [], tablength = 4,
               fullPathNamespace = ''sample''\<rparr>"
             "[''Note: be careful'' @ linesep]"
             "\<lambda>s. RaisesSyntaxError" "[]"]
       r n
  show ?thesis by simp
qed

subsection \<open>The final splice\<close>















subsection \<open>Interface classes\<close>











































text \<open>
  With the tree of CPython 3.8 and later the walk then comes to the \<open>Constant\<close> node of the
  docstring and raises \<open>TypeError\<close>.
\<close>

lemma constant_node_raises:
  "visit \<lparr>autobrief = True, autocode = True, topLevelNamespace = ''sample'', tablength = 4,
           fullPathNamespace = ''sample''\<rparr>
     (\<lambda>s. RaisesSyntaxError) []
     (ClassDefNode ''IFoo'' 1 True [OtherNode [OtherNode []], OtherNode [ConstantNode]])
     [''class IFoo(Interface):'' @ linesep,
      ''    '' @ [CHR 0x22, CHR 0x22, CHR 0x22] @ ''An interface.'' @
        [CHR 0x22, CHR 0x22, CHR 0x22] @ linesep]
   = Some (Inl TypeError)"
  by code_simp

end
